theory Spec2Isabelle
  imports Complex_Main "HOL-Library.Sublist"
begin

section \<open>Tensor entries\<close>

text \<open>
  The updater \<^verbatim>\<open>PPO\<close> of \<^verbatim>\<open>habitat_baselines/rl/ppo/ppo.py\<close> works on
  torch tensors. A tensor is modelled by the list of its entries in storage order.

  \<^verbatim>\<open>get_advantages\<close> is the one place of the file that tells finite entries from
  the others (\<^verbatim>\<open>torch.isfinite\<close>), so its entries are values of \<open>fval\<close>: a real
  number, one of the two infinities, or not-a-number. The operations below follow the
  IEEE rules for the special values and are exact on the finite ones: rounding and
  overflow are outside the model.
\<close>

datatype fval = Fin real | PInf | NInf | NaN

fun isfinite :: "fval \<Rightarrow> bool" where
  "isfinite (Fin _) = True"
| "isfinite _ = False"

fun fneg :: "fval \<Rightarrow> fval" where
  "fneg (Fin a) = Fin (- a)"
| "fneg PInf = NInf"
| "fneg NInf = PInf"
| "fneg NaN = NaN"

fun fadd :: "fval \<Rightarrow> fval \<Rightarrow> fval" where
  "fadd (Fin a) (Fin b) = Fin (a + b)"
| "fadd NaN _ = NaN"
| "fadd _ NaN = NaN"
| "fadd PInf NInf = NaN"
| "fadd NInf PInf = NaN"
| "fadd PInf _ = PInf"
| "fadd _ PInf = PInf"
| "fadd NInf _ = NInf"
| "fadd _ NInf = NInf"

definition fsub :: "fval \<Rightarrow> fval \<Rightarrow> fval" where
  "fsub a b = fadd a (fneg b)"

text \<open>The sign of an entry that is not NaN, for the product with an infinity.\<close>

fun fsgn :: "fval \<Rightarrow> real" where
  "fsgn (Fin a) = sgn a"
| "fsgn PInf = 1"
| "fsgn NInf = - 1"
| "fsgn NaN = 0"

fun fmul :: "fval \<Rightarrow> fval \<Rightarrow> fval" where
  "fmul (Fin a) (Fin b) = Fin (a * b)"
| "fmul NaN _ = NaN"
| "fmul _ NaN = NaN"
| "fmul a b =
     (if fsgn a * fsgn b = 0 then NaN else if fsgn a * fsgn b > 0 then PInf else NInf)"

text \<open>\<^verbatim>\<open>torch.rsqrt\<close>: the reciprocal of the square root.\<close>

fun frsqrt :: "fval \<Rightarrow> fval" where
  "frsqrt (Fin a) = (if a < 0 then NaN else if a = 0 then PInf else Fin (1 / sqrt a))"
| "frsqrt PInf = Fin 0"
| "frsqrt NInf = NaN"
| "frsqrt NaN = NaN"

definition fsum :: "fval list \<Rightarrow> fval" where
  "fsum xs = foldr fadd xs (Fin 0)"

text \<open>
  \<^verbatim>\<open>torch.var_mean(x)\<close> with its defaults: the mean, and the sample variance with
  Bessel's correction (the sum of squared deviations over \<open>n - 1\<close>). With no entry the
  mean is \<open>0 / 0\<close>, and with fewer than two entries the variance is \<open>0 / 0\<close>: NaN.
\<close>

definition var_mean :: "fval list \<Rightarrow> fval \<times> fval" where
  "var_mean x =
     (let n = length x;
          mean = (if n = 0 then NaN else fmul (fsum x) (Fin (1 / real n)));
          var = (if n \<le> 1 then NaN
                 else fmul (fsum (map (\<lambda>v. fmul (fsub v mean) (fsub v mean)) x))
                           (Fin (1 / real (n - 1))))
      in (var, mean))"

section \<open>Collaborators\<close>

text \<open>
  The loss is assembled from tensors whose entries the model takes as real numbers, with
  exact arithmetic. Parameters are known by their names, and the gradient of a parameter
  (\<^verbatim>\<open>p.grad\<close>) is a tensor or \<^verbatim>\<open>None\<close>.
\<close>

type_synonym tensor = "real list"

type_synonym pname = string

datatype error =
  StopIteration | AttributeError | NameError | TypeError | KeyError | IndexError | RuntimeError

record parameter =
  p_name :: pname
  requires_grad :: bool

text \<open>
  What the updater reads of the policy \<^verbatim>\<open>actor_critic\<close>: its parameters under the
  names they have inside the policy module, \<^verbatim>\<open>num_actions\<close> (\<open>None\<close> when the
  attribute is missing), \<^verbatim>\<open>action_distribution_type\<close> (\<open>None\<close> is the default of
  the \<^verbatim>\<open>getattr\<close>), whether it is an \<^verbatim>\<open>AttentiveBeliefPolicy\<close>, and the two
  parameter groups that \<^verbatim>\<open>policy_parameters()\<close> and \<^verbatim>\<open>aux_loss_parameters()\<close>
  return.
\<close>

record actor_critic =
  parameters :: "parameter list"
  num_actions :: "int option"
  action_distribution_type :: "string option"
  is_attentive :: bool
  policy_parameters :: "pname list"
  aux_loss_parameters :: "(string \<times> pname list) list"

text \<open>
  Modelled from the spec: the class \<^verbatim>\<open>LagrangeInequalityCoefficient\<close> of
  \<^verbatim>\<open>habitat_baselines.utils.common\<close> is not among the sources. The spec gives its
  constructor \<open>(threshold, init_alpha, alpha_max, alpha_min, greater_than)\<close>, a loss
  \<open>alpha \<times> (threshold - entropy)\<close>, with the sign flipped when \<open>greater_than\<close> holds,
  and a projection that clamps \<open>alpha\<close> to \<open>[alpha_min, alpha_max]\<close>. It holds one
  learnable scalar, named \<open>alpha\<close> here.
\<close>

record lagrange_inequality_coefficient =
  threshold :: real
  alpha :: real
  alpha_max :: real
  alpha_min :: real
  greater_than :: bool

definition LagrangeInequalityCoefficient ::
  "real \<Rightarrow> real \<Rightarrow> real \<Rightarrow> real \<Rightarrow> bool \<Rightarrow> lagrange_inequality_coefficient" where
  "LagrangeInequalityCoefficient thr init_alpha a_max a_min gt =
     \<lparr>threshold = thr, alpha = init_alpha, alpha_max = a_max, alpha_min = a_min,
      greater_than = gt\<rparr>"

definition lagrangian_loss :: "lagrange_inequality_coefficient \<Rightarrow> real \<Rightarrow> real" where
  "lagrangian_loss c entropy =
     (if \<not> greater_than c then alpha c * (threshold c - entropy)
      else alpha c * (entropy - threshold c))"

definition project_into_bounds ::
  "lagrange_inequality_coefficient \<Rightarrow> lagrange_inequality_coefficient" where
  "project_into_bounds c = c\<lparr>alpha := min (max (alpha c) (alpha_min c)) (alpha_max c)\<rparr>"

definition coefficient_parameters :: "parameter list" where
  "coefficient_parameters = [\<lparr>p_name = ''alpha'', requires_grad = True\<rparr>]"

text \<open>\<^verbatim>\<open>self.entropy_coef\<close>: the configured float, or the adaptive coefficient.\<close>

datatype entropy_coef = Fixed real | Lagrange lagrange_inequality_coefficient

text \<open>
  The optimizer is a black box with an internal state of some type \<open>'s\<close>:
  \<^verbatim>\<open>state_dict()\<close> returns that state, \<^verbatim>\<open>load_state_dict\<close> replaces it, and
  \<^verbatim>\<open>step()\<close> computes the next one from the gradients (\<open>step_fn\<close>).
\<close>

record 's optimizer =
  param_groups :: "pname list"
  lr :: "real option"
  eps :: "real option"
  step_fn :: "(pname \<Rightarrow> tensor option) \<Rightarrow> 's \<Rightarrow> 's"
  state :: 's

definition state_dict :: "'s optimizer \<Rightarrow> 's" where
  "state_dict opt = state opt"

definition optimizer_load_state_dict :: "'s optimizer \<Rightarrow> 's \<Rightarrow> 's optimizer" where
  "optimizer_load_state_dict opt s = opt\<lparr>state := s\<rparr>"

text \<open>An auxiliary task module (an entry of \<^verbatim>\<open>aux_tasks\<close>) and \<^verbatim>\<open>aux_cfg\<close>.\<close>

record aux_task =
  task_parameters :: "parameter list"

record aux_config =
  aux_entropy_coef :: real

text \<open>The options \<^verbatim>\<open>from_config\<close> reads of \<^verbatim>\<open>config\<close>.\<close>

record config =
  cfg_clip_param :: real
  cfg_ppo_epoch :: int
  cfg_num_mini_batch :: int
  cfg_value_loss_coef :: real
  cfg_entropy_coef :: real
  cfg_aux_loss_coef :: real
  cfg_lr :: "real option"
  cfg_eps :: "real option"
  cfg_max_grad_norm :: "real option"
  cfg_use_clipped_value_loss :: bool
  cfg_use_normalized_advantage :: bool
  cfg_entropy_target_factor :: real
  cfg_use_adaptive_entropy_pen :: bool

section \<open>Construction\<close>

text \<open>The attributes \<^verbatim>\<open>__init__\<close> sets on \<^verbatim>\<open>self\<close>.\<close>

record 's ppo =
  actor_critic :: actor_critic
  clip_param :: real
  ppo_epoch :: int
  num_mini_batch :: int
  value_loss_coef :: real
  entropy_coef :: entropy_coef
  aux_loss_coef :: real
  max_grad_norm :: "real option"
  use_clipped_value_loss :: bool
  aux_cfg :: "aux_config option"
  aux_tasks :: "aux_task list"
  aux_names :: "string list"
  use_normalized_advantage :: bool
  optimizer :: "'s optimizer option"
  non_ac_params :: "pname list"

text \<open>The keyword arguments of \<^verbatim>\<open>__init__\<close>, besides \<^verbatim>\<open>actor_critic\<close>.\<close>

record init_args =
  arg_clip_param :: real
  arg_ppo_epoch :: int
  arg_num_mini_batch :: int
  arg_value_loss_coef :: real
  arg_entropy_coef :: real
  arg_aux_loss_coef :: real
  arg_lr :: "real option"
  arg_eps :: "real option"
  arg_max_grad_norm :: "real option"
  arg_use_clipped_value_loss :: bool
  arg_use_normalized_advantage :: bool
  arg_entropy_target_factor :: real
  arg_use_adaptive_entropy_pen :: bool
  arg_aux_tasks :: "aux_task list"
  arg_aux_names :: "string list"
  arg_aux_cfg :: "aux_config option"

text \<open>
  \<^verbatim>\<open>self.named_parameters()\<close>: the parameters of the registered submodules, each
  name prefixed by the attribute that holds the module. The policy is registered first,
  the adaptive coefficient (when there is one) after it; \<^verbatim>\<open>_aux_tasks\<close> is a plain
  list and registers nothing.
\<close>

definition named_parameters :: "actor_critic \<Rightarrow> entropy_coef \<Rightarrow> parameter list" where
  "named_parameters ac ec =
     map (\<lambda>p. p\<lparr>p_name := ''actor_critic.'' @ p_name p\<rparr>) (parameters ac) @
     (case ec of
        Fixed _ \<Rightarrow> []
      | Lagrange _ \<Rightarrow>
          map (\<lambda>p. p\<lparr>p_name := ''entropy_coef.'' @ p_name p\<rparr>) coefficient_parameters)"

text \<open>
  \<^verbatim>\<open>_create_optimizer\<close>: Adam over the trainable parameters of the module and of
  the auxiliary tasks, or \<^verbatim>\<open>None\<close> when there is none. \<open>step\<close> and \<open>fresh\<close> stand
  for Adam's update rule and its initial state.
\<close>

definition create_optimizer ::
  "((pname \<Rightarrow> tensor option) \<Rightarrow> 's \<Rightarrow> 's) \<Rightarrow> 's \<Rightarrow> parameter list \<Rightarrow> real option \<Rightarrow>
   real option \<Rightarrow> aux_task list \<Rightarrow> 's optimizer option" where
  "create_optimizer step fresh self_parameters lr' eps' aux_tasks' =
     (let params = filter requires_grad self_parameters;
          params = (if length aux_tasks' > 0
                    then params @ concat (map (\<lambda>aux_t. filter requires_grad (task_parameters aux_t))
                                              aux_tasks')
                    else params)
      in if length params > 0
         then Some \<lparr>param_groups = map p_name params, lr = lr', eps = eps', step_fn = step,
                    state = fresh\<rparr>
         else None)"

text \<open>
  \<^verbatim>\<open>__init__\<close>. \<^verbatim>\<open>next(actor_critic.parameters())\<close> raises
  \<^verbatim>\<open>StopIteration\<close> for a policy without parameters. The device itself is not
  modelled.
\<close>

definition PPO_init ::
  "((pname \<Rightarrow> tensor option) \<Rightarrow> 's \<Rightarrow> 's) \<Rightarrow> 's \<Rightarrow> actor_critic \<Rightarrow> init_args \<Rightarrow> error + 's ppo" where
  "PPO_init step fresh ac args =
     (if parameters ac = [] then Inl StopIteration
      else
        let ec = (if arg_use_adaptive_entropy_pen args
                     \<and> num_actions ac \<noteq> None
                     \<and> action_distribution_type ac = Some ''gaussian''
                  then Lagrange (LagrangeInequalityCoefficient
                         (- arg_entropy_target_factor args * real_of_int (the (num_actions ac)))
                         (arg_entropy_coef args) 1 (1 / 10000) True)
                  else Fixed (arg_entropy_coef args));
            tasks = (case arg_aux_cfg args of None \<Rightarrow> [] | Some _ \<Rightarrow> arg_aux_tasks args);
            names = (case arg_aux_cfg args of None \<Rightarrow> [] | Some _ \<Rightarrow> arg_aux_names args)
        in Inr \<lparr>actor_critic = ac,
                clip_param = arg_clip_param args,
                ppo_epoch = arg_ppo_epoch args,
                num_mini_batch = arg_num_mini_batch args,
                value_loss_coef = arg_value_loss_coef args,
                entropy_coef = ec,
                aux_loss_coef = arg_aux_loss_coef args,
                max_grad_norm = arg_max_grad_norm args,
                use_clipped_value_loss = arg_use_clipped_value_loss args,
                aux_cfg = arg_aux_cfg args,
                aux_tasks = tasks,
                aux_names = names,
                use_normalized_advantage = arg_use_normalized_advantage args,
                optimizer = create_optimizer step fresh (named_parameters ac ec)
                              (arg_lr args) (arg_eps args) tasks,
                non_ac_params =
                  map p_name (filter (\<lambda>p. \<not> prefix ''actor_critic.'' (p_name p))
                                     (named_parameters ac ec))\<rparr>)"

text \<open>\<^verbatim>\<open>from_config\<close>: every argument is read from \<^verbatim>\<open>config\<close> but
  \<^verbatim>\<open>aux_loss_coef\<close>, which is the literal \<^verbatim>\<open>0.0\<close>.\<close>

definition from_config ::
  "((pname \<Rightarrow> tensor option) \<Rightarrow> 's \<Rightarrow> 's) \<Rightarrow> 's \<Rightarrow> actor_critic \<Rightarrow> config \<Rightarrow> aux_task list \<Rightarrow>
   string list \<Rightarrow> aux_config option \<Rightarrow> error + 's ppo" where
  "from_config step fresh ac cfg aux_tasks' aux_names' aux_cfg' =
     PPO_init step fresh ac
       \<lparr>arg_clip_param = cfg_clip_param cfg,
        arg_ppo_epoch = cfg_ppo_epoch cfg,
        arg_num_mini_batch = cfg_num_mini_batch cfg,
        arg_value_loss_coef = cfg_value_loss_coef cfg,
        arg_entropy_coef = cfg_entropy_coef cfg,
        arg_aux_loss_coef = 0,
        arg_lr = cfg_lr cfg,
        arg_eps = cfg_eps cfg,
        arg_max_grad_norm = cfg_max_grad_norm cfg,
        arg_use_clipped_value_loss = cfg_use_clipped_value_loss cfg,
        arg_use_normalized_advantage = cfg_use_normalized_advantage cfg,
        arg_entropy_target_factor = cfg_entropy_target_factor cfg,
        arg_use_adaptive_entropy_pen = cfg_use_adaptive_entropy_pen cfg,
        arg_aux_tasks = aux_tasks',
        arg_aux_names = aux_names',
        arg_aux_cfg = aux_cfg'\<rparr>"

section \<open>Advantages\<close>

definition EPS_PPO :: real where
  "EPS_PPO = 1 / 100000"

text \<open>
  The rollout storage: the two buffers \<^verbatim>\<open>get_advantages\<close> reads, and
  \<^verbatim>\<open>current_policy_version\<close>, which only a \<^verbatim>\<open>VERRolloutStorage\<close> has.
\<close>

record rollout_storage =
  returns :: "fval list"
  value_preds :: "fval list"
  current_policy_version :: "int option"

definition compute_var_mean :: "fval list \<Rightarrow> fval \<times> fval" where
  "compute_var_mean x = var_mean x"

text \<open>
  \<^verbatim>\<open>get_advantages\<close>. The difference of the two buffers is a fresh tensor, so the
  in-place \<^verbatim>\<open>-=\<close> and \<^verbatim>\<open>mul_\<close> change no buffer and the model returns the
  new tensor.
\<close>

definition get_advantages :: "'s ppo \<Rightarrow> rollout_storage \<Rightarrow> fval list" where
  "get_advantages self rollouts =
     (let advantages = map2 fsub (returns rollouts) (value_preds rollouts)
      in if \<not> use_normalized_advantage self then advantages
         else
           let (var, mean) = compute_var_mean (filter isfinite advantages);
               advantages = map (\<lambda>a. fsub a mean) advantages
           in map (\<lambda>a. fmul a (frsqrt (fadd var (Fin EPS_PPO)))) advantages)"

section \<open>The loss of one minibatch\<close>

text \<open>
  A minibatch of the sampler: the fields \<^verbatim>\<open>_update_from_batch\<close> reads, the optional
  ones \<open>None\<close> when the key is missing. By the invariant of a batch all its tensors
  have the same shape, and so have the tensors the policy returns for it.
\<close>

record batch =
  batch_advantages :: tensor
  batch_action_log_probs :: tensor
  batch_value_preds :: tensor
  batch_returns :: tensor
  batch_is_coeffs :: "tensor option"
  batch_is_stale :: "bool list option"
  batch_policy_version :: "int list option"

text \<open>
  What the policy returns for the minibatch. \<^verbatim>\<open>aux_loss_res\<close> is bound for a plain
  policy only, \<^verbatim>\<open>aux_dist_entropy\<close> (a tensor) and \<^verbatim>\<open>aux_weights\<close> for an
  attentive one only; \<^verbatim>\<open>aux_raw_losses\<close> is the result of
  \<^verbatim>\<open>evaluate_aux_losses\<close>. The recurrent states and features are only passed on
  to the policy and are left out.
\<close>

record policy_output =
  values' :: tensor
  action_log_probs :: tensor
  dist_entropy :: tensor
  aux_loss_res :: "(string \<times> (string \<times> real) list) list"
  aux_dist_entropy :: real
  aux_weights :: "real list"
  aux_raw_losses :: "real list"

text \<open>\<^verbatim>\<open>torch.clamp(x, min, max)\<close> and \<^verbatim>\<open>torch.mean\<close>.\<close>

definition clamp :: "real \<Rightarrow> real \<Rightarrow> real \<Rightarrow> real" where
  "clamp x lo hi = min (max x lo) hi"

definition tmean :: "tensor \<Rightarrow> real" where
  "tmean t = sum_list t / real (length t)"

definition ratio :: "policy_output \<Rightarrow> batch \<Rightarrow> tensor" where
  "ratio ev b = map2 (\<lambda>new old. exp (new - old)) (action_log_probs ev) (batch_action_log_probs b)"

text \<open>The clipped surrogate, before the reduction.\<close>

definition action_loss :: "'s ppo \<Rightarrow> policy_output \<Rightarrow> batch \<Rightarrow> tensor" where
  "action_loss self ev b =
     (let surr1 = map2 (*) (batch_advantages b) (ratio ev b);
          surr2 = map2 (*) (batch_advantages b)
                    (map (\<lambda>r. clamp r (1 - clip_param self) (1 + clip_param self)) (ratio ev b))
      in map uminus (map2 min surr1 surr2))"

text \<open>The values that enter the value loss: \<^verbatim>\<open>torch.where\<close> picks per entry.\<close>

definition selected_values :: "'s ppo \<Rightarrow> policy_output \<Rightarrow> batch \<Rightarrow> tensor" where
  "selected_values self ev b =
     (if use_clipped_value_loss self
      then
        let delta = map2 (-) (values' ev) (batch_value_preds b);
            value_pred_clipped =
              map2 (+) (batch_value_preds b)
                (map (\<lambda>d. clamp d (- clip_param self) (clip_param self)) delta)
        in map (\<lambda>(d, v, c). if \<bar>d\<bar> < clip_param self then v else c)
             (zip delta (zip (values' ev) value_pred_clipped))
      else values' ev)"

definition value_loss :: "'s ppo \<Rightarrow> policy_output \<Rightarrow> batch \<Rightarrow> tensor" where
  "value_loss self ev b =
     map2 (\<lambda>v r. 0.5 * (v - r)\<^sup>2) (selected_values self ev b) (batch_returns b)"

definition mean_fn :: "batch \<Rightarrow> tensor \<Rightarrow> real" where
  "mean_fn b t =
     (case batch_is_coeffs b of
        Some is_coeffs \<Rightarrow>
          let ver_is_coeffs = map (\<lambda>c. min c 1) is_coeffs
          in tmean (map2 (*) ver_is_coeffs t)
      | None \<Rightarrow> tmean t)"

text \<open>The three reduced terms, in the order of the \<^verbatim>\<open>map\<close>.\<close>

definition reduced_losses :: "'s ppo \<Rightarrow> policy_output \<Rightarrow> batch \<Rightarrow> real \<times> real \<times> real" where
  "reduced_losses self ev b =
     (mean_fn b (action_loss self ev b),
      mean_fn b (value_loss self ev b),
      mean_fn b (dist_entropy ev))"

fun lookup_loss :: "(string \<times> real) list list \<Rightarrow> error + real list" where
  "lookup_loss [] = Inr []"
| "lookup_loss (v # vs) =
     (case map_of v ''loss'' of
        None \<Rightarrow> Inl KeyError
      | Some l \<Rightarrow> (case lookup_loss vs of Inl e \<Rightarrow> Inl e | Inr ls \<Rightarrow> Inr (l # ls)))"

text \<open>
  \<^verbatim>\<open>total_loss\<close>: the sum of \<^verbatim>\<open>all_losses\<close>. An attentive policy without
  auxiliary tasks reaches the unbound \<^verbatim>\<open>aux_loss_res\<close>, and one without
  \<^verbatim>\<open>aux_cfg\<close> the missing attribute \<^verbatim>\<open>self.aux_cfg\<close>.
\<close>

definition total_loss :: "'s ppo \<Rightarrow> policy_output \<Rightarrow> batch \<Rightarrow> error + real" where
  "total_loss self ev b =
     (let (action_loss', value_loss', dist_entropy') = reduced_losses self ev b;
          attentive = is_attentive (actor_critic self);
          total_aux_loss = (if attentive \<and> length (aux_tasks self) > 0
                            then sum_list (aux_raw_losses ev) else 0);
          all_losses = [value_loss_coef self * value_loss', action_loss'];
          all_losses = (if attentive then all_losses @ [total_aux_loss * aux_loss_coef self]
                        else all_losses);
          all_losses = all_losses @
            [case entropy_coef self of
               Fixed c \<Rightarrow> - c * dist_entropy'
             | Lagrange l \<Rightarrow> lagrangian_loss l dist_entropy']
      in if attentive \<and> aux_cfg self = None then Inl AttributeError
         else
           let all_losses = (if attentive
                             then all_losses @
                                  [aux_dist_entropy ev * aux_entropy_coef (the (aux_cfg self))]
                             else all_losses)
           in if length (aux_tasks self) = 0
              then if attentive then Inl NameError
                   else (case lookup_loss (map snd (aux_loss_res ev)) of
                           Inl e \<Rightarrow> Inl e
                         | Inr ls \<Rightarrow> Inr (sum_list (all_losses @ ls)))
              else Inr (sum_list all_losses))"

section \<open>Gradients and the distributed group\<close>

text \<open>
  A pending all-reduce: the parameter whose gradient was handed over, and the sum the
  group delivers into that gradient.
\<close>

record handle =
  h_param :: pname
  h_reduced :: tensor

text \<open>
  The gradients of one worker, keyed by the parameter's name in the updater module, and
  the all-reduces issued and not yet awaited.
\<close>

record grad_state =
  grad :: "pname \<Rightarrow> tensor option"
  in_flight :: "handle list"

text \<open>
  The initialized process group as one worker sees it: its size, and for each parameter
  the tensors the other workers hand to the same all-reduce.
  \<^verbatim>\<open>torch.distributed.is_initialized()\<close> is false when there is no group.
\<close>

record process_group =
  world_size :: nat
  peers :: "pname \<Rightarrow> tensor list"

definition tensor_add :: "tensor \<Rightarrow> tensor \<Rightarrow> tensor" where
  "tensor_add a b = map2 (+) a b"

text \<open>
  \<^verbatim>\<open>all_reduce(t, async_op=True)\<close> sums the tensors of all workers into \<open>t\<close> and
  returns at once with a handle; the sum is in place once the handle has been awaited.
\<close>

definition all_reduce ::
  "process_group \<Rightarrow> pname \<Rightarrow> tensor \<Rightarrow> grad_state \<Rightarrow> handle \<times> grad_state" where
  "all_reduce pg p t st =
     (let h = \<lparr>h_param = p, h_reduced = foldl tensor_add t (peers pg p)\<rparr>
      in (h, st\<lparr>in_flight := in_flight st @ [h]\<rparr>))"

definition wait :: "handle \<Rightarrow> grad_state \<Rightarrow> grad_state" where
  "wait h st =
     st\<lparr>grad := (grad st)(h_param h \<mapsto> h_reduced h), in_flight := remove1 h (in_flight st)\<rparr>"

text \<open>
  \<^verbatim>\<open>nn.utils.clip_grad_norm_(parameters, max_norm)\<close>: the 2-norm over the gradients
  that are present, each of them scaled by \<open>max_norm / (norm + 1e-6)\<close> when that is
  below one; the norm is returned.
\<close>

definition mul_grad :: "real \<Rightarrow> pname \<Rightarrow> grad_state \<Rightarrow> grad_state" where
  "mul_grad c p s =
     (case grad s p of
        None \<Rightarrow> s
      | Some g \<Rightarrow> s\<lparr>grad := (grad s)(p \<mapsto> map (\<lambda>x. x * c) g)\<rparr>)"

definition clip_grad_norm :: "pname list \<Rightarrow> real \<Rightarrow> grad_state \<Rightarrow> grad_state \<times> real" where
  "clip_grad_norm params max_norm st =
     (let grads = concat (map (\<lambda>p. case grad st p of None \<Rightarrow> [] | Some g \<Rightarrow> [g]) params)
      in if length grads = 0 then (st, 0)
         else
           let total_norm = sqrt (sum_list (map (\<lambda>g. sum_list (map (\<lambda>x. x\<^sup>2) g)) grads));
               clip_coef = max_norm / (total_norm + 1 / 1000000);
               clip_coef_clamped = min clip_coef 1
           in (fold (mul_grad clip_coef_clamped) params st, total_norm))"

text \<open>
  The policy's parameter groups under their names in the updater module: the policy is
  the attribute \<^verbatim>\<open>actor_critic\<close> of \<^verbatim>\<open>self\<close>.
\<close>

definition in_updater :: "pname list \<Rightarrow> pname list" where
  "in_updater ps = map (\<lambda>n. ''actor_critic.'' @ n) ps"

text \<open>
  The body of the loop over \<^verbatim>\<open>non_ac_params\<close> in \<^verbatim>\<open>before_step\<close>: a
  gradient that is present is divided by the world size in place and handed to an
  asynchronous all-reduce, whose handle is kept.
\<close>

definition sync_grad ::
  "process_group \<Rightarrow> pname \<Rightarrow> grad_state \<times> handle list \<Rightarrow> grad_state \<times> handle list" where
  "sync_grad pg p sh =
     (case sh of (s, handles) \<Rightarrow>
        (case grad s p of
           None \<Rightarrow> (s, handles)
         | Some g \<Rightarrow>
             let g = map (\<lambda>x. x / real (world_size pg)) g;
                 s = s\<lparr>grad := (grad s)(p \<mapsto> g)\<rparr>;
                 (h, s) = all_reduce pg p g s
             in (s, handles @ [h])))"

text \<open>
  \<^verbatim>\<open>before_step\<close>. The first argument of the model is the process group, \<open>None\<close>
  when \<^verbatim>\<open>torch.distributed\<close> is not initialized. \<^verbatim>\<open>clip_grad_norm_\<close> calls
  \<^verbatim>\<open>float(max_norm)\<close>, a \<^verbatim>\<open>TypeError\<close> for \<^verbatim>\<open>None\<close>.
\<close>

definition before_step ::
  "process_group option \<Rightarrow> 's ppo \<Rightarrow> grad_state \<Rightarrow> error + (grad_state \<times> real)" where
  "before_step pgroup self st =
     (let (st, handles) =
            (case pgroup of
               None \<Rightarrow> (st, [])
             | Some pg \<Rightarrow> fold (sync_grad pg) (non_ac_params self) (st, []))
      in case max_grad_norm self of
           None \<Rightarrow> Inl TypeError
         | Some max_norm \<Rightarrow>
             let (st, grad_norm) =
                   clip_grad_norm (in_updater (policy_parameters (actor_critic self))) max_norm st;
                 st = fold (\<lambda>v s. fst (clip_grad_norm (in_updater v) max_norm s))
                        (map snd (aux_loss_parameters (actor_critic self))) st;
                 st = fold wait handles st
             in Inr (st, grad_norm))"

text \<open>
  The group as a whole. The distributed runtime is a collaborator outside the sources; an
  all-reduce delivers to every worker the sum of what the workers hand over. Every worker
  runs \<^verbatim>\<open>before_step\<close> of the same updater on its own gradients, and hands to the
  all-reduce of a parameter its gradient divided by the world size, as the loop above has
  it. \<open>group_view sts i\<close> is the group as worker \<open>i\<close> sees it when the workers hold
  the gradients \<open>sts\<close>.
\<close>

definition handed_over :: "nat \<Rightarrow> grad_state \<Rightarrow> pname \<Rightarrow> tensor list" where
  "handed_over n st p =
     (case grad st p of None \<Rightarrow> [] | Some g \<Rightarrow> [map (\<lambda>x. x / real n) g])"

definition group_view :: "grad_state list \<Rightarrow> nat \<Rightarrow> process_group" where
  "group_view sts i =
     \<lparr>world_size = length sts,
      peers = (\<lambda>p. concat (map (\<lambda>j. if j = i then [] else handed_over (length sts) (sts ! j) p)
                                [0..<length sts]))\<rparr>"

definition group_before_step ::
  "'s ppo \<Rightarrow> grad_state list \<Rightarrow> (error + (grad_state \<times> real)) list" where
  "group_before_step self sts =
     map (\<lambda>i. before_step (Some (group_view sts i)) self (sts ! i)) [0..<length sts]"

definition after_step :: "'s ppo \<Rightarrow> 's ppo" where
  "after_step self =
     (case entropy_coef self of
        Lagrange l \<Rightarrow> self\<lparr>entropy_coef := Lagrange (project_into_bounds l)\<rparr>
      | Fixed _ \<Rightarrow> self)"

definition set_grads_to_none :: "'s ppo \<Rightarrow> grad_state \<Rightarrow> error + grad_state" where
  "set_grads_to_none self st =
     (case optimizer self of
        None \<Rightarrow> Inl AttributeError
      | Some opt \<Rightarrow>
          Inr (fold (\<lambda>p s. s\<lparr>grad := (grad s)(p := None)\<rparr>) (param_groups opt) st))"

section \<open>Metrics and the update loop\<close>

text \<open>\<^verbatim>\<open>learner_metrics\<close>, a \<^verbatim>\<open>defaultdict(list)\<close>: a key never used holds the empty list.\<close>

type_synonym learner_metrics = "string \<Rightarrow> real list"

definition append_metric :: "string \<Rightarrow> real \<Rightarrow> learner_metrics \<Rightarrow> learner_metrics" where
  "append_metric k v lm = lm(k := lm k @ [v])"

definition and_then :: "error + 'a \<Rightarrow> ('a \<Rightarrow> error + 'b) \<Rightarrow> error + 'b" where
  "and_then r f = (case r of Inl e \<Rightarrow> Inl e | Inr v \<Rightarrow> f v)"

text \<open>\<^verbatim>\<open>torch.min\<close> and \<^verbatim>\<open>torch.max\<close> of a tensor with at least one entry.\<close>

definition tmin :: "tensor \<Rightarrow> real" where
  "tmin t = fold min (tl t) (hd t)"

definition tmax :: "tensor \<Rightarrow> real" where
  "tmax t = fold max (tl t) (hd t)"

text \<open>\<^verbatim>\<open>record_min_mean_max\<close>; \<^verbatim>\<open>torch.min\<close> raises on a tensor without entries.\<close>

definition record_min_mean_max ::
  "tensor \<Rightarrow> string \<Rightarrow> learner_metrics \<Rightarrow> error + learner_metrics" where
  "record_min_mean_max t pre lm =
     (if t = [] then Inl RuntimeError
      else Inr (append_metric (pre @ ''_max'') (tmax t)
                 (append_metric (pre @ ''_mean'') (tmean t)
                   (append_metric (pre @ ''_min'') (tmin t) lm))))"

text \<open>The value appended under \<^verbatim>\<open>ppo_fraction_clipped\<close>.\<close>

definition ppo_fraction_clipped :: "'s ppo \<Rightarrow> tensor \<Rightarrow> real" where
  "ppo_fraction_clipped self r =
     tmean (map (\<lambda>x. if x > 1 + clip_param self then 1 else 0) r)
     + tmean (map (\<lambda>x. if x < 1 - clip_param self then 1 else 0) r)"

text \<open>The metrics of a plain policy's auxiliary results: \<^verbatim>\<open>aux_{name}_{k}\<close>.\<close>

definition record_aux_loss_res ::
  "(string \<times> (string \<times> real) list) list \<Rightarrow> learner_metrics \<Rightarrow> learner_metrics" where
  "record_aux_loss_res res lm =
     fold (\<lambda>(name, r) lm. fold (\<lambda>(k, v) lm. append_metric (''aux_'' @ name @ ''_'' @ k) v lm) r lm)
       res lm"

text \<open>
  The loops over \<^verbatim>\<open>enumerate(aux_losses)\<close> and \<^verbatim>\<open>enumerate(aux_weights)\<close>, which
  index \<^verbatim>\<open>self._aux_names\<close>.
\<close>

fun record_named :: "string \<Rightarrow> string list \<Rightarrow> nat \<Rightarrow> real list \<Rightarrow> learner_metrics \<Rightarrow>
    error + learner_metrics" where
  "record_named pre names i [] lm = Inr lm"
| "record_named pre names i (v # vs) lm =
     (if i < length names
      then record_named pre names (Suc i) vs (append_metric (pre @ names ! i) v lm)
      else Inl IndexError)"

text \<open>
  The block under \<^verbatim>\<open>inference_mode()\<close> at the end of \<^verbatim>\<open>_update_from_batch\<close>,
  in four parts. \<open>epoch\<close> is the index of the running epoch, \<open>grad_norm\<close> what
  \<^verbatim>\<open>before_step\<close> returned, and \<open>self\<close> the updater after \<^verbatim>\<open>after_step\<close>.

  First the minimum, mean and maximum of the coefficients, the value predictions and the
  ratio.
\<close>

definition record_ranges ::
  "policy_output \<Rightarrow> batch \<Rightarrow> learner_metrics \<Rightarrow> error + learner_metrics" where
  "record_ranges ev b lm =
     and_then (case batch_is_coeffs b of
                 Some is_coeffs \<Rightarrow> record_min_mean_max is_coeffs ''ver_is_coeffs'' lm
               | None \<Rightarrow> Inr lm) (\<lambda>lm.
     and_then (record_min_mean_max (values' ev) ''value_pred'' lm)
       (record_min_mean_max (ratio ev b) ''prob_ratio''))"

text \<open>Then the losses, the clipped fraction in the last epoch, the norm and the coefficient.\<close>

definition record_losses ::
  "'s ppo \<Rightarrow> policy_output \<Rightarrow> batch \<Rightarrow> nat \<Rightarrow> real \<Rightarrow> learner_metrics \<Rightarrow> learner_metrics" where
  "record_losses self ev b epoch grad_norm lm =
     (let (action_loss', value_loss', dist_entropy') = reduced_losses self ev b;
          lm = append_metric ''value_loss'' value_loss' lm;
          lm = append_metric ''action_loss'' action_loss' lm;
          lm = append_metric ''dist_entropy'' dist_entropy' lm;
          lm = (if int epoch = ppo_epoch self - 1
                then append_metric ''ppo_fraction_clipped''
                       (ppo_fraction_clipped self (ratio ev b)) lm
                else lm);
          lm = append_metric ''grad_norm'' grad_norm lm
      in case entropy_coef self of
           Lagrange l \<Rightarrow> append_metric ''entropy_coef'' (alpha l) lm
         | Fixed _ \<Rightarrow> lm)"

text \<open>
  Then the auxiliary results. Without auxiliary tasks \<^verbatim>\<open>aux_loss_res\<close> is read,
  unbound for an attentive policy; with them \<^verbatim>\<open>aux_weights\<close> is read, unbound for
  a plain one.
\<close>

definition record_aux :: "'s ppo \<Rightarrow> policy_output \<Rightarrow> learner_metrics \<Rightarrow> error + learner_metrics" where
  "record_aux self ev lm =
     (if length (aux_tasks self) = 0
      then if is_attentive (actor_critic self) then Inl NameError
           else Inr (record_aux_loss_res (aux_loss_res ev) lm)
      else if \<not> is_attentive (actor_critic self) then Inl NameError
           else
             and_then (record_named ''aux_entropy_'' (aux_names self) 0 (aux_raw_losses ev)
                         (append_metric ''aux_entropy'' (aux_dist_entropy ev) lm))
               (record_named ''aux_weights_'' (aux_names self) 0 (aux_weights ev)))"

text \<open>Last the stale fraction and, for a \<^verbatim>\<open>VERRolloutStorage\<close>, the version lag.\<close>

definition record_staleness ::
  "batch \<Rightarrow> rollout_storage \<Rightarrow> learner_metrics \<Rightarrow> error + learner_metrics" where
  "record_staleness b rollouts lm =
     (let lm = (case batch_is_stale b of
                  Some is_stale \<Rightarrow>
                    append_metric ''fraction_stale''
                      (tmean (map (\<lambda>s. if s then 1 else 0) is_stale)) lm
                | None \<Rightarrow> lm)
      in case current_policy_version rollouts of
           None \<Rightarrow> Inr lm
         | Some current \<Rightarrow>
             (case batch_policy_version b of
                None \<Rightarrow> Inl KeyError
              | Some version \<Rightarrow>
                  record_min_mean_max (map (\<lambda>v. real_of_int (current - v)) version)
                    ''policy_version_difference'' lm))"

definition record_metrics ::
  "'s ppo \<Rightarrow> policy_output \<Rightarrow> batch \<Rightarrow> nat \<Rightarrow> rollout_storage \<Rightarrow> real \<Rightarrow> learner_metrics \<Rightarrow>
   error + learner_metrics" where
  "record_metrics self ev b epoch rollouts grad_norm lm =
     and_then (record_ranges ev b lm) (\<lambda>lm.
     and_then (record_aux self ev (record_losses self ev b epoch grad_norm lm))
       (record_staleness b rollouts))"

text \<open>
  What the collaborators do with one minibatch: the batch the sampler yields, what the
  policy returns for it, the gradients \<^verbatim>\<open>total_loss.backward()\<close> leaves, the process
  group at that moment, and the value \<^verbatim>\<open>optimizer.step()\<close> leaves in the adaptive
  coefficient.
\<close>

record minibatch =
  mb_batch :: batch
  mb_output :: policy_output
  mb_backward :: "pname \<Rightarrow> tensor option"
  mb_group :: "process_group option"
  mb_stepped_alpha :: real

text \<open>\<^verbatim>\<open>self.optimizer.step()\<close>, reading the gradients \<^verbatim>\<open>before_step\<close> left.\<close>

definition optimizer_step :: "real \<Rightarrow> grad_state \<Rightarrow> 's ppo \<Rightarrow> error + 's ppo" where
  "optimizer_step stepped_alpha st self =
     (case optimizer self of
        None \<Rightarrow> Inl AttributeError
      | Some opt \<Rightarrow>
          Inr (self\<lparr>optimizer := Some (opt\<lparr>state := step_fn opt (grad st) (state opt)\<rparr>),
                    entropy_coef := (case entropy_coef self of
                                       Lagrange l \<Rightarrow> Lagrange (l\<lparr>alpha := stepped_alpha\<rparr>)
                                     | Fixed c \<Rightarrow> Fixed c)\<rparr>))"

text \<open>
  \<^verbatim>\<open>_update_from_batch\<close>: the state is the updater, the gradients and the metrics.
  \<^verbatim>\<open>before_backward\<close> returns the loss as it is and \<^verbatim>\<open>after_backward\<close> does
  nothing.
\<close>

definition update_from_batch ::
  "minibatch \<Rightarrow> nat \<Rightarrow> rollout_storage \<Rightarrow> 's ppo \<times> grad_state \<times> learner_metrics \<Rightarrow>
   error + ('s ppo \<times> grad_state \<times> learner_metrics)" where
  "update_from_batch mb epoch rollouts s =
     (case s of (self, st, lm) \<Rightarrow>
        and_then (set_grads_to_none self st) (\<lambda>st.
        and_then (total_loss self (mb_output mb) (mb_batch mb)) (\<lambda>loss.
        let st = st\<lparr>grad := mb_backward mb\<rparr>
        in
        and_then (before_step (mb_group mb) self st) (\<lambda>(st, grad_norm).
        and_then (optimizer_step (mb_stepped_alpha mb) st self) (\<lambda>self.
        let self = after_step self
        in
        and_then (record_metrics self (mb_output mb) (mb_batch mb) epoch rollouts grad_norm lm)
          (\<lambda>lm. Inr (self, st, lm)))))))"

fun update_batches ::
  "nat \<Rightarrow> rollout_storage \<Rightarrow> minibatch list \<Rightarrow> 's ppo \<times> grad_state \<times> learner_metrics \<Rightarrow>
   error + ('s ppo \<times> grad_state \<times> learner_metrics)" where
  "update_batches epoch rollouts [] s = Inr s"
| "update_batches epoch rollouts (mb # mbs) s =
     and_then (update_from_batch mb epoch rollouts s) (update_batches epoch rollouts mbs)"

text \<open>
  The loop over the epochs; \<open>data_generator\<close> gives the minibatches the sampler draws in
  each epoch.
\<close>

fun update_epochs ::
  "(nat \<Rightarrow> minibatch list) \<Rightarrow> rollout_storage \<Rightarrow> nat list \<Rightarrow>
   's ppo \<times> grad_state \<times> learner_metrics \<Rightarrow> error + ('s ppo \<times> grad_state \<times> learner_metrics)" where
  "update_epochs data_generator rollouts [] s = Inr s"
| "update_epochs data_generator rollouts (epoch # epochs) s =
     and_then (update_batches epoch rollouts (data_generator epoch) s)
       (update_epochs data_generator rollouts epochs)"

text \<open>
  \<^verbatim>\<open>update\<close>. The sampler \<^verbatim>\<open>rollouts.data_generator\<close> is a parameter: from the
  advantages and \<^verbatim>\<open>num_mini_batch\<close> to the minibatches of each epoch. The result
  holds a mean for every key of \<^verbatim>\<open>learner_metrics\<close>.
\<close>

definition update ::
  "(fval list \<Rightarrow> int \<Rightarrow> nat \<Rightarrow> minibatch list) \<Rightarrow> rollout_storage \<Rightarrow> 's ppo \<times> grad_state \<Rightarrow>
   error + ('s ppo \<times> grad_state \<times> (string \<rightharpoonup> real))" where
  "update data_generator rollouts s =
     (case s of (self, st) \<Rightarrow>
        let advantages = get_advantages self rollouts
        in
        and_then (update_epochs (data_generator advantages (num_mini_batch self)) rollouts
                    [0..<nat (ppo_epoch self)] (self, st, \<lambda>k. []))
          (\<lambda>(self, st, lm).
             and_then (set_grads_to_none self st)
               (\<lambda>st. Inr (self, st, \<lambda>k. if lm k = [] then None else Some (tmean (lm k))))))"

section \<open>Resume state\<close>

definition get_resume_state :: "'s ppo \<Rightarrow> error + (string \<rightharpoonup> 's)" where
  "get_resume_state self =
     (case optimizer self of
        None \<Rightarrow> Inl AttributeError
      | Some opt \<Rightarrow> Inr [''optim_state'' \<mapsto> state_dict opt])"

definition load_state_dict :: "'s ppo \<Rightarrow> (string \<rightharpoonup> 's) \<Rightarrow> error + 's ppo" where
  "load_state_dict self st =
     (case st ''optim_state'' of
        None \<Rightarrow> Inr self
      | Some s \<Rightarrow>
          (case optimizer self of
             None \<Rightarrow> Inl AttributeError
           | Some opt \<Rightarrow> Inr (self\<lparr>optimizer := Some (optimizer_load_state_dict opt s)\<rparr>)))"

section \<open>An example updater\<close>

text \<open>
  A small attentive policy with a Gaussian action distribution, a configuration that asks
  for the adaptive entropy coefficient and for an auxiliary weight of one half, and the
  updater \<^verbatim>\<open>from_config\<close> builds from them with one auxiliary task. The optimizer's
  state is a step counter.
\<close>

definition example_policy :: actor_critic where
  "example_policy =
     \<lparr>parameters = [\<lparr>p_name = ''net.weight'', requires_grad = True\<rparr>,
                    \<lparr>p_name = ''critic.weight'', requires_grad = True\<rparr>,
                    \<lparr>p_name = ''cpc.weight'', requires_grad = True\<rparr>],
      num_actions = Some 2,
      action_distribution_type = Some ''gaussian'',
      is_attentive = True,
      policy_parameters = [''net.weight'', ''critic.weight''],
      aux_loss_parameters = [(''cpc'', [''cpc.weight''])]\<rparr>"

definition example_config :: config where
  "example_config =
     \<lparr>cfg_clip_param = 1 / 5,
      cfg_ppo_epoch = 2,
      cfg_num_mini_batch = 1,
      cfg_value_loss_coef = 1 / 2,
      cfg_entropy_coef = 1 / 100,
      cfg_aux_loss_coef = 1 / 2,
      cfg_lr = Some (1 / 4000),
      cfg_eps = Some (1 / 100000),
      cfg_max_grad_norm = Some (1 / 5),
      cfg_use_clipped_value_loss = True,
      cfg_use_normalized_advantage = True,
      cfg_entropy_target_factor = 1 / 2,
      cfg_use_adaptive_entropy_pen = True\<rparr>"

definition example_task :: aux_task where
  "example_task = \<lparr>task_parameters = [\<lparr>p_name = ''task.weight'', requires_grad = True\<rparr>]\<rparr>"

definition example_updater :: "nat ppo" where
  "example_updater =
     \<lparr>actor_critic = example_policy,
      clip_param = 1 / 5,
      ppo_epoch = 2,
      num_mini_batch = 1,
      value_loss_coef = 1 / 2,
      entropy_coef = Lagrange \<lparr>threshold = - 1, alpha = 1 / 100, alpha_max = 1,
                               alpha_min = 1 / 10000, greater_than = True\<rparr>,
      aux_loss_coef = 0,
      max_grad_norm = Some (1 / 5),
      use_clipped_value_loss = True,
      aux_cfg = Some \<lparr>aux_entropy_coef = 1 / 100\<rparr>,
      aux_tasks = [example_task],
      aux_names = [''cpc''],
      use_normalized_advantage = True,
      optimizer = Some \<lparr>param_groups = [''actor_critic.net.weight'', ''actor_critic.critic.weight'',
                                         ''actor_critic.cpc.weight'', ''entropy_coef.alpha'',
                                         ''task.weight''],
                         lr = Some (1 / 4000), eps = Some (1 / 100000),
                         step_fn = (\<lambda>g n. Suc n), state = 0\<rparr>,
      non_ac_params = [''entropy_coef.alpha'']\<rparr>"

text \<open>The arguments \<^verbatim>\<open>from_config\<close> passes to \<^verbatim>\<open>__init__\<close> for that updater.\<close>

definition example_args :: init_args where
  "example_args =
     \<lparr>arg_clip_param = 1 / 5,
      arg_ppo_epoch = 2,
      arg_num_mini_batch = 1,
      arg_value_loss_coef = 1 / 2,
      arg_entropy_coef = 1 / 100,
      arg_aux_loss_coef = 0,
      arg_lr = Some (1 / 4000),
      arg_eps = Some (1 / 100000),
      arg_max_grad_norm = Some (1 / 5),
      arg_use_clipped_value_loss = True,
      arg_use_normalized_advantage = True,
      arg_entropy_target_factor = 1 / 2,
      arg_use_adaptive_entropy_pen = True,
      arg_aux_tasks = [example_task],
      arg_aux_names = [''cpc''],
      arg_aux_cfg = Some \<lparr>aux_entropy_coef = 1 / 100\<rparr>\<rparr>"

text \<open>A minibatch of two samples and what the example policy returns for it.\<close>

definition example_batch :: batch where
  "example_batch =
     \<lparr>batch_advantages = [1, - 1],
      batch_action_log_probs = [- 1, - 2],
      batch_value_preds = [0, 1],
      batch_returns = [1, 1],
      batch_is_coeffs = None,
      batch_is_stale = None,
      batch_policy_version = None\<rparr>"

definition example_output :: policy_output where
  "example_output =
     \<lparr>values' = [1 / 2, 2],
      action_log_probs = [- 1, - 2],
      dist_entropy = [1, 3],
      aux_loss_res = [],
      aux_dist_entropy = 1,
      aux_weights = [1],
      aux_raw_losses = [2]\<rparr>"

text \<open>
  The gradients a backward pass leaves, a process group of two workers in which the other
  worker hands \<open>[4]\<close> to the all-reduce of the coefficient, and the collaborators'
  part in one minibatch of a worker on its own.
\<close>

definition example_grads :: "pname \<Rightarrow> tensor option" where
  "example_grads =
     [''actor_critic.net.weight'' \<mapsto> [3, 4], ''entropy_coef.alpha'' \<mapsto> [2]]"

definition example_group :: process_group where
  "example_group = \<lparr>world_size = 2, peers = (\<lambda>p. [[4]])\<rparr>"

definition example_minibatch :: minibatch where
  "example_minibatch =
     \<lparr>mb_batch = example_batch,
      mb_output = example_output,
      mb_backward = example_grads,
      mb_group = None,
      mb_stepped_alpha = 2\<rparr>"

definition example_rollouts :: rollout_storage where
  "example_rollouts =
     \<lparr>returns = [Fin 1, Fin 3], value_preds = [Fin 0, Fin 0], current_policy_version = None\<rparr>"

definition example_state :: grad_state where
  "example_state = \<lparr>grad = (\<lambda>p. None), in_flight = []\<rparr>"

section \<open>Properties of the advantages\<close>

lemma fsum_Fin: "fsum (map Fin xs) = Fin (sum_list xs)"
  by (induction xs) (auto simp: fsum_def)

lemma all_finite_is_map_Fin: "(\<forall>a \<in> set ys. isfinite a) \<Longrightarrow> \<exists>xs. ys = map Fin xs"
proof (induction ys)
  case Nil
  then show ?case by simp
next
  case (Cons y ys)
  then obtain xs where xs: "ys = map Fin xs" by auto
  from Cons.prems obtain x where "y = Fin x" by (cases y) auto
  with xs have "y # ys = map Fin (x # xs)" by simp
  then show ?case by (rule exI)
qed

lemma filter_isfinite_Fin: "filter isfinite (map Fin xs) = map Fin xs"
  by (induction xs) auto

lemma var_mean_Fin:
  assumes "2 \<le> length xs"
  shows "var_mean (map Fin xs) =
    (Fin ((\<Sum>x\<leftarrow>xs. (x - sum_list xs / real (length xs))\<^sup>2) / real (length xs - 1)),
     Fin (sum_list xs / real (length xs)))"
proof -
  have m: "map (\<lambda>v. fmul (fsub v (Fin c)) (fsub v (Fin c))) (map Fin xs) =
      map Fin (map (\<lambda>x. (x - c)\<^sup>2) xs)" for c
    by (simp add: fsub_def power2_eq_square)
  from assms have ne: "length xs \<noteq> 0" "\<not> length xs \<le> 1" by auto
  show ?thesis
    unfolding var_mean_def Let_def length_map
    by (simp only: ne if_False fsum_Fin m fmul.simps mult_1 times_divide_eq_right
        mult.right_neutral)
qed

lemma sum_list_shift_scale:
  fixes xs :: "real list"
  shows "(\<Sum>x\<leftarrow>xs. (x - m) * s) = (sum_list xs - real (length xs) * m) * s"
  by (induction xs) (simp_all add: algebra_simps)

lemma sum_list_sq_scale:
  fixes xs :: "real list"
  shows "(\<Sum>x\<leftarrow>xs. ((x - m) * s)\<^sup>2) = (\<Sum>x\<leftarrow>xs. (x - m)\<^sup>2) * s\<^sup>2"
  by (induction xs) (simp_all add: power_mult_distrib distrib_right)

lemma sum_list_sq_nonneg: "0 \<le> (\<Sum>x\<leftarrow>xs. ((f x)::real)\<^sup>2)"
  by (induction xs) simp_all

text \<open>
  On a batch of at least two finite advantages the normalized tensor has mean zero and
  sample variance \<open>v / (v + EPS_PPO)\<close>, where \<open>v\<close> is the sample variance of the raw
  advantages.
\<close>

lemma normalized_all_finite:
  assumes n: "2 \<le> length xs"
    and raw: "map2 fsub (returns r) (value_preds r) = map Fin xs"
    and on: "use_normalized_advantage self"
  defines "m \<equiv> sum_list xs / real (length xs)"
  defines "v \<equiv> (\<Sum>x\<leftarrow>xs. (x - m)\<^sup>2) / real (length xs - 1)"
  shows "0 \<le> v"
    and "var_mean (get_advantages self r) = (Fin (v / (v + EPS_PPO)), Fin 0)"
proof -
  show v0: "0 \<le> v" unfolding v_def using sum_list_sq_nonneg[of "\<lambda>x. x - m" xs] by simp
  have "0 < EPS_PPO" by (simp add: EPS_PPO_def)
  with v0 have pos: "0 < v + EPS_PPO" by linarith
  have norm: "get_advantages self r = map Fin (map (\<lambda>x. (x - m) * (1 / sqrt (v + EPS_PPO))) xs)"
  proof -
    have vm: "compute_var_mean (filter isfinite (map Fin xs)) = (Fin v, Fin m)"
      unfolding compute_var_mean_def filter_isfinite_Fin var_mean_Fin[OF n] v_def m_def ..
    show ?thesis
      unfolding get_advantages_def raw Let_def vm
      using pos on by (simp add: fsub_def)
  qed
  let ?s = "1 / sqrt (v + EPS_PPO)"
  let ?ys = "map (\<lambda>x. (x - m) * ?s) xs"
  have len: "length ?ys = length xs" by simp
  have npos: "0 < real (length xs)" using n by (cases xs) simp_all
  have "sum_list xs - real (length xs) * m = 0"
    using npos by (simp add: m_def)
  then have sum0: "sum_list ?ys = 0"
    unfolding sum_list_shift_scale by simp
  have s2: "?s\<^sup>2 = 1 / (v + EPS_PPO)"
    using pos by (simp add: power_divide)
  have sq: "(\<Sum>y\<leftarrow>?ys. (y - 0)\<^sup>2) = (\<Sum>x\<leftarrow>xs. (x - m)\<^sup>2) * ?s\<^sup>2"
    unfolding sum_list_sq_scale[of m ?s xs, symmetric] by (simp add: comp_def)
  have "var_mean (map Fin ?ys) =
      (Fin ((\<Sum>y\<leftarrow>?ys. (y - sum_list ?ys / real (length ?ys))\<^sup>2) / real (length ?ys - 1)),
       Fin (sum_list ?ys / real (length ?ys)))"
    using n by (intro var_mean_Fin) simp
  also have "\<dots> = (Fin ((\<Sum>y\<leftarrow>?ys. (y - 0)\<^sup>2) / real (length xs - 1)), Fin 0)"
    unfolding sum0 len by simp
  also have "\<dots> = (Fin (v / (v + EPS_PPO)), Fin 0)"
  proof -
    have "(\<Sum>y\<leftarrow>?ys. (y - 0)\<^sup>2) / real (length xs - 1)
        = ((\<Sum>x\<leftarrow>xs. (x - m)\<^sup>2) / real (length xs - 1)) * (1 / (v + EPS_PPO))"
      unfolding sq s2 by simp
    also have "\<dots> = v / (v + EPS_PPO)"
      unfolding v_def[symmetric] by simp
    finally show ?thesis by simp
  qed
  finally show "var_mean (get_advantages self r) = (Fin (v / (v + EPS_PPO)), Fin 0)"
    unfolding norm .
qed

lemma nonfinite_fadd: "\<not> isfinite a \<Longrightarrow> \<not> isfinite (fadd a b)"
  by (cases a; cases b) simp_all

lemma nonfinite_fmul: "\<not> isfinite a \<Longrightarrow> \<not> isfinite (fmul a b)"
  by (cases a; cases b) simp_all

lemma nonfinite_normalized: "\<not> isfinite a \<Longrightarrow> \<not> isfinite (fmul (fsub a m) s)"
  unfolding fsub_def by (intro nonfinite_fmul nonfinite_fadd)

text \<open>
  Claim C1, as the code has it. The raw advantages are \<^verbatim>\<open>returns - value_preds\<close>, and
  without normalization they are the result. With normalization, the variance and the mean
  are those of the finite entries; every entry, finite or not, has that mean subtracted and
  is then multiplied by \<open>1 / sqrt (var + 1e-5)\<close>, and an entry that was not finite is not
  finite afterwards. On a batch of at least two advantages, all finite, the result has mean
  exactly \<open>0\<close> and sample variance \<open>v / (v + 1e-5)\<close>, where \<open>v\<close> is the sample
  variance of the raw advantages: below one, near one only when \<open>v\<close> is large against
  \<open>1e-5\<close>, and zero when all the advantages are equal.
\<close>

theorem get_advantages_normalized:
  assumes raw: "raw = map2 fsub (returns r) (value_preds r)"
    and vm: "(var, mean) = var_mean (filter isfinite raw)"
  shows "get_advantages self r =
           (if use_normalized_advantage self
            then map (\<lambda>a. fmul (fsub a mean) (frsqrt (fadd var (Fin EPS_PPO)))) raw
            else raw) \<and>
         (use_normalized_advantage self \<longrightarrow>
            (\<forall>i<length raw. \<not> isfinite (raw ! i) \<longrightarrow> \<not> isfinite (get_advantages self r ! i)) \<and>
            ((\<forall>a\<in>set raw. isfinite a) \<and> 2 \<le> length raw \<longrightarrow>
               (\<exists>v. var = Fin v \<and> 0 \<le> v \<and>
                    var_mean (get_advantages self r) = (Fin (v / (v + EPS_PPO)), Fin 0))))"
proof (intro conjI allI impI)
  show eq: "get_advantages self r =
      (if use_normalized_advantage self
       then map (\<lambda>a. fmul (fsub a mean) (frsqrt (fadd var (Fin EPS_PPO)))) raw
       else raw)"
    using vm[symmetric] by (simp add: get_advantages_def raw[symmetric] compute_var_mean_def)
  show "\<not> isfinite (get_advantages self r ! i)"
    if "use_normalized_advantage self" "i < length raw" "\<not> isfinite (raw ! i)" for i
    using that by (simp add: eq nonfinite_normalized)
  show "\<exists>v. var = Fin v \<and> 0 \<le> v \<and>
          var_mean (get_advantages self r) = (Fin (v / (v + EPS_PPO)), Fin 0)"
    if on: "use_normalized_advantage self" and fin: "(\<forall>a\<in>set raw. isfinite a) \<and> 2 \<le> length raw"
  proof -
    from fin obtain xs where xs: "raw = map Fin xs"
      using all_finite_is_map_Fin by blast
    with fin have n: "2 \<le> length xs" by simp
    have raw': "map2 fsub (returns r) (value_preds r) = map Fin xs"
      using raw xs by simp
    have "var_mean (filter isfinite raw) = var_mean (map Fin xs)"
      by (simp add: xs filter_isfinite_Fin)
    with vm var_mean_Fin[OF n]
    have var: "var = Fin ((\<Sum>x\<leftarrow>xs. (x - sum_list xs / real (length xs))\<^sup>2) / real (length xs - 1))"
      by simp
    from normalized_all_finite[OF n raw' on] var show ?thesis by blast
  qed
qed

theorem get_advantages_normalized_witness:
  "\<not> isfinite (get_advantages example_updater
       \<lparr>returns = [Fin 1, PInf, Fin 3], value_preds = [Fin 0, Fin 0, Fin 0],
        current_policy_version = None\<rparr> ! 1) \<and>
   var_mean (get_advantages example_updater
       \<lparr>returns = [Fin 1, Fin 3], value_preds = [Fin 0, Fin 0],
        current_policy_version = None\<rparr>) = (Fin (2 / (2 + EPS_PPO)), Fin 0)"
proof
  let ?r = "\<lparr>returns = [Fin 1, PInf, Fin 3], value_preds = [Fin 0, Fin 0, Fin 0],
             current_policy_version = None\<rparr>"
  have on: "use_normalized_advantage example_updater"
    by (simp add: example_updater_def)
  have raw: "[Fin 1, PInf, Fin 3] = map2 fsub (returns ?r) (value_preds ?r)"
    by (simp add: fsub_def)
  have vm: "(Fin 2, Fin 2) = var_mean (filter isfinite [Fin 1, PInf, Fin 3])"
    by (simp add: var_mean_def fsum_def fsub_def Let_def)
  from get_advantages_normalized[OF raw vm, of example_updater] on
  have "\<forall>i<length [Fin 1, PInf, Fin 3].
          \<not> isfinite ([Fin 1, PInf, Fin 3] ! i) \<longrightarrow> \<not> isfinite (get_advantages example_updater ?r ! i)"
    by blast
  then have "\<not> isfinite ([Fin 1, PInf, Fin 3] ! 1) \<longrightarrow> \<not> isfinite (get_advantages example_updater ?r ! 1)"
    by simp
  then show "\<not> isfinite (get_advantages example_updater ?r ! 1)" by simp
next
  let ?r = "\<lparr>returns = [Fin 1, Fin 3], value_preds = [Fin 0, Fin 0],
             current_policy_version = None\<rparr>"
  have on: "use_normalized_advantage example_updater"
    by (simp add: example_updater_def)
  have raw: "[Fin 1, Fin 3] = map2 fsub (returns ?r) (value_preds ?r)"
    by (simp add: fsub_def)
  have vm: "(Fin 2, Fin 2) = var_mean (filter isfinite [Fin 1, Fin 3])"
    by (simp add: var_mean_def fsum_def fsub_def Let_def)
  have fin: "(\<forall>a\<in>set [Fin 1, Fin 3]. isfinite a) \<and> 2 \<le> length [Fin 1, Fin 3 :: fval]"
    by simp
  from get_advantages_normalized[OF raw vm, of example_updater] on fin
  have "\<exists>v. Fin 2 = Fin v \<and> 0 \<le> v \<and>
          var_mean (get_advantages example_updater ?r) = (Fin (v / (v + EPS_PPO)), Fin 0)"
    by blast
  then show "var_mean (get_advantages example_updater ?r) = (Fin (2 / (2 + EPS_PPO)), Fin 0)"
    by auto
qed

text \<open>
  Claim C1 as stated fails on a batch of equal advantages: they are all finite, and the
  normalized tensor is all zero, so its variance is \<open>0\<close>, not near \<open>1\<close>.
\<close>

theorem get_advantages_constant_batch:
  "get_advantages example_updater
     \<lparr>returns = [Fin 1, Fin 1], value_preds = [Fin 0, Fin 0], current_policy_version = None\<rparr>
     = [Fin 0, Fin 0] \<and>
   var_mean (get_advantages example_updater
     \<lparr>returns = [Fin 1, Fin 1], value_preds = [Fin 0, Fin 0], current_policy_version = None\<rparr>)
     = (Fin 0, Fin 0)"
  by (simp add: get_advantages_def compute_var_mean_def var_mean_def fsum_def fsub_def
      EPS_PPO_def Let_def example_updater_def)

section \<open>Properties of the loss\<close>

lemma map2_same: "map2 f xs xs = map (\<lambda>x. f x x) xs"
  by (induction xs) simp_all

lemma map2_mult_ones:
  fixes xs :: "real list"
  shows "length xs = n \<Longrightarrow> map2 (*) xs (replicate n 1) = xs"
  by (induction xs arbitrary: n) auto

lemma clamp_one: "0 < c \<Longrightarrow> clamp 1 (1 - c) (1 + c) = 1"
  by (simp add: clamp_def)

text \<open>
  Claim C5. When the policy returns the stored log-probabilities, every entry of the
  ratio is \<open>1\<close>, and for a positive \<^verbatim>\<open>clip_param\<close> the action loss before the
  reduction is the tensor of the negated advantages.
\<close>

theorem ratio_identity:
  assumes same: "action_log_probs ev = batch_action_log_probs b"
    and len: "length (batch_advantages b) = length (batch_action_log_probs b)"
    and clip: "0 < clip_param self"
  shows "ratio ev b = replicate (length (batch_action_log_probs b)) 1 \<and>
         action_loss self ev b = map uminus (batch_advantages b)"
proof
  show r: "ratio ev b = replicate (length (batch_action_log_probs b)) 1"
    unfolding ratio_def same map2_same by (simp add: map_replicate_const)
  have c: "map (\<lambda>r. clamp r (1 - clip_param self) (1 + clip_param self))
             (replicate (length (batch_action_log_probs b)) 1)
           = replicate (length (batch_action_log_probs b)) 1"
    by (simp add: clamp_one[OF clip])
  show "action_loss self ev b = map uminus (batch_advantages b)"
    unfolding action_loss_def r c Let_def map2_mult_ones[OF len] map2_same by simp
qed

theorem ratio_identity_witness:
  "action_log_probs example_output = batch_action_log_probs example_batch \<and>
   ratio example_output example_batch = [1, 1] \<and>
   action_loss example_updater example_output example_batch = [- 1, 1]"
proof -
  have same: "action_log_probs example_output = batch_action_log_probs example_batch"
    by (simp add: example_output_def example_batch_def)
  have len: "length (batch_advantages example_batch) = length (batch_action_log_probs example_batch)"
    by (simp add: example_batch_def)
  have clip: "0 < clip_param example_updater"
    by (simp add: example_updater_def)
  from ratio_identity[OF same len clip] same show ?thesis
    by (simp add: example_batch_def)
qed

text \<open>
  Claim C2. With \<^verbatim>\<open>use_clipped_value_loss\<close>, the value that enters the squared error
  is chosen per entry: the new value itself when it is strictly less than
  \<^verbatim>\<open>clip_param\<close> away from the old prediction, and otherwise the old prediction plus
  the clamped change. The value loss of the entry is half the squared error between the
  chosen value and the return.
\<close>

theorem value_loss_clip_selection:
  assumes clipped: "use_clipped_value_loss self"
    and len_preds: "length (batch_value_preds b) = length (values' ev)"
    and len_returns: "length (batch_returns b) = length (values' ev)"
    and i: "i < length (values' ev)"
  shows "selected_values self ev b ! i =
           (if \<bar>values' ev ! i - batch_value_preds b ! i\<bar> < clip_param self
            then values' ev ! i
            else batch_value_preds b ! i +
                 clamp (values' ev ! i - batch_value_preds b ! i)
                   (- clip_param self) (clip_param self)) \<and>
         value_loss self ev b ! i =
           0.5 * (selected_values self ev b ! i - batch_returns b ! i)\<^sup>2"
proof
  show "selected_values self ev b ! i =
           (if \<bar>values' ev ! i - batch_value_preds b ! i\<bar> < clip_param self
            then values' ev ! i
            else batch_value_preds b ! i +
                 clamp (values' ev ! i - batch_value_preds b ! i)
                   (- clip_param self) (clip_param self))"
    using clipped len_preds i by (simp add: selected_values_def Let_def)
  have "length (selected_values self ev b) = length (values' ev)"
    using len_preds by (simp add: selected_values_def Let_def)
  then show "value_loss self ev b ! i =
      0.5 * (selected_values self ev b ! i - batch_returns b ! i)\<^sup>2"
    using len_returns i by (simp add: value_loss_def)
qed

theorem value_loss_clip_selection_witness:
  "use_clipped_value_loss example_updater \<and>
   selected_values example_updater example_output
     (example_batch\<lparr>batch_value_preds := [2 / 5, 1]\<rparr>) ! 0 = 1 / 2 \<and>
   selected_values example_updater example_output
     (example_batch\<lparr>batch_value_preds := [2 / 5, 1]\<rparr>) ! 1 = 6 / 5 \<and>
   value_loss example_updater example_output
     (example_batch\<lparr>batch_value_preds := [2 / 5, 1]\<rparr>) ! 0 = 1 / 8 \<and>
   value_loss example_updater example_output
     (example_batch\<lparr>batch_value_preds := [2 / 5, 1]\<rparr>) ! 1 = 1 / 50"
proof -
  let ?b = "example_batch\<lparr>batch_value_preds := [2 / 5, 1]\<rparr>"
  have clipped: "use_clipped_value_loss example_updater"
    by (simp add: example_updater_def)
  have len_preds: "length (batch_value_preds ?b) = length (values' example_output)"
    by (simp add: example_output_def)
  have len_returns: "length (batch_returns ?b) = length (values' example_output)"
    by (simp add: example_output_def example_batch_def)
  have i0: "0 < length (values' example_output)" and i1: "1 < length (values' example_output)"
    by (simp_all add: example_output_def)
  have c: "clip_param example_updater = 1 / 5"
    by (simp add: example_updater_def)
  note t0 = value_loss_clip_selection[OF clipped len_preds len_returns i0]
  note t1 = value_loss_clip_selection[OF clipped len_preds len_returns i1]
  have s0: "selected_values example_updater example_output ?b ! 0 = 1 / 2"
    using t0[THEN conjunct1] by (simp add: c example_output_def)
  have s1: "selected_values example_updater example_output ?b ! 1 = 6 / 5"
    using t1[THEN conjunct1] by (simp add: c example_output_def clamp_def)
  have "value_loss example_updater example_output ?b ! 0 = 0.5 * (1 / 2 - batch_returns ?b ! 0)\<^sup>2"
    using t0[THEN conjunct2] unfolding s0 .
  then have v0: "value_loss example_updater example_output ?b ! 0 = 1 / 8"
    by (simp add: example_batch_def power2_eq_square)
  have "value_loss example_updater example_output ?b ! 1 = 0.5 * (6 / 5 - batch_returns ?b ! 1)\<^sup>2"
    using t1[THEN conjunct2] unfolding s1 .
  then have v1: "value_loss example_updater example_output ?b ! 1 = 1 / 50"
    by (simp add: example_batch_def power2_eq_square)
  from clipped s0 s1 v0 v1 show ?thesis by simp
qed

lemma loss_terms_ignore_is_coeffs:
  "action_loss self ev (b\<lparr>batch_is_coeffs := c\<rparr>) = action_loss self ev b"
  "value_loss self ev (b\<lparr>batch_is_coeffs := c\<rparr>) = value_loss self ev b"
  by (simp_all add: action_loss_def value_loss_def selected_values_def ratio_def)

lemma total_loss_of_reduced:
  "reduced_losses self ev b = reduced_losses self ev b' \<Longrightarrow>
   total_loss self ev b = total_loss self ev b'"
  by (simp add: total_loss_def)

text \<open>
  Claim C3. The three terms are reduced by one and the same function: with
  \<^verbatim>\<open>is_coeffs\<close> in the batch, the mean of the term weighted entry by entry with the
  coefficients clamped to at most \<open>1\<close>, and the plain mean without. The loss sees the
  coefficients only after the clamp: two batches that differ in their coefficients but
  agree after the clamp have the same total loss.
\<close>

theorem reduction_rule:
  "reduced_losses self ev b =
     (case batch_is_coeffs b of
        Some is_coeffs \<Rightarrow>
          (tmean (map2 (*) (map (\<lambda>c. min c 1) is_coeffs) (action_loss self ev b)),
           tmean (map2 (*) (map (\<lambda>c. min c 1) is_coeffs) (value_loss self ev b)),
           tmean (map2 (*) (map (\<lambda>c. min c 1) is_coeffs) (dist_entropy ev)))
      | None \<Rightarrow>
          (tmean (action_loss self ev b), tmean (value_loss self ev b),
           tmean (dist_entropy ev))) \<and>
   (map (\<lambda>c. min c 1) cs = map (\<lambda>c. min c 1) cs' \<longrightarrow>
      total_loss self ev (b\<lparr>batch_is_coeffs := Some cs\<rparr>) =
      total_loss self ev (b\<lparr>batch_is_coeffs := Some cs'\<rparr>))"
proof (intro conjI impI)
  show "reduced_losses self ev b =
     (case batch_is_coeffs b of
        Some is_coeffs \<Rightarrow>
          (tmean (map2 (*) (map (\<lambda>c. min c 1) is_coeffs) (action_loss self ev b)),
           tmean (map2 (*) (map (\<lambda>c. min c 1) is_coeffs) (value_loss self ev b)),
           tmean (map2 (*) (map (\<lambda>c. min c 1) is_coeffs) (dist_entropy ev)))
      | None \<Rightarrow>
          (tmean (action_loss self ev b), tmean (value_loss self ev b),
           tmean (dist_entropy ev)))"
    by (simp add: reduced_losses_def mean_fn_def Let_def split: option.split)
  assume eq: "map (\<lambda>c. min c 1) cs = map (\<lambda>c. min c 1) cs'"
  have "reduced_losses self ev (b\<lparr>batch_is_coeffs := Some cs\<rparr>) =
        reduced_losses self ev (b\<lparr>batch_is_coeffs := Some cs'\<rparr>)"
    unfolding reduced_losses_def loss_terms_ignore_is_coeffs
    by (simp add: mean_fn_def Let_def eq)
  then show "total_loss self ev (b\<lparr>batch_is_coeffs := Some cs\<rparr>) =
      total_loss self ev (b\<lparr>batch_is_coeffs := Some cs'\<rparr>)"
    by (rule total_loss_of_reduced)
qed

theorem reduction_rule_witness:
  "map (\<lambda>c. min c 1) [2, 1 / 2 :: real] = map (\<lambda>c. min c 1) [3, 1 / 2] \<and>
   total_loss example_updater example_output (example_batch\<lparr>batch_is_coeffs := Some [2, 1 / 2]\<rparr>) =
   total_loss example_updater example_output (example_batch\<lparr>batch_is_coeffs := Some [3, 1 / 2]\<rparr>)"
proof -
  have eq: "map (\<lambda>c. min c 1) [2, 1 / 2 :: real] = map (\<lambda>c. min c 1) [3, 1 / 2]"
    by simp
  from reduction_rule[of example_updater example_output example_batch "[2, 1 / 2]" "[3, 1 / 2]"] eq
  show ?thesis by blast
qed

section \<open>Properties of the construction\<close>

text \<open>
  Claim C7. For a policy with at least one parameter (\<^verbatim>\<open>__init__\<close> reads the device
  of the first one before anything else) the constructor returns an updater, whatever the
  three preconditions are. Its entropy coefficient is the adaptive one exactly when
  \<^verbatim>\<open>use_adaptive_entropy_pen\<close> is set, the policy has \<^verbatim>\<open>num_actions\<close> and its
  \<^verbatim>\<open>action_distribution_type\<close> is \<^verbatim>\<open>"gaussian"\<close>; it then has the threshold
  \<open>- entropy_target_factor \<times> num_actions\<close>, starts at the configured coefficient and is
  bounded by \<open>1e-4\<close> and \<open>1\<close>. Otherwise it is the configured float.
\<close>

theorem adaptive_entropy_activation:
  assumes "parameters ac \<noteq> []"
  shows "\<exists>self. PPO_init step fresh ac args = Inr self \<and>
           entropy_coef self =
             (case num_actions ac of
                None \<Rightarrow> Fixed (arg_entropy_coef args)
              | Some n \<Rightarrow>
                  if arg_use_adaptive_entropy_pen args \<and>
                     action_distribution_type ac = Some ''gaussian''
                  then Lagrange \<lparr>threshold = - arg_entropy_target_factor args * real_of_int n,
                                 alpha = arg_entropy_coef args,
                                 alpha_max = 1,
                                 alpha_min = 1 / 10000,
                                 greater_than = True\<rparr>
                  else Fixed (arg_entropy_coef args))"
  using assms
  by (auto simp: PPO_init_def LagrangeInequalityCoefficient_def Let_def split: option.split)

theorem adaptive_entropy_activation_witness:
  "parameters example_policy \<noteq> [] \<and>
   (\<exists>self. PPO_init (\<lambda>g n. Suc n) (0 :: nat) example_policy example_args = Inr self \<and>
      entropy_coef self =
        Lagrange \<lparr>threshold = - 1, alpha = 1 / 100, alpha_max = 1, alpha_min = 1 / 10000,
                  greater_than = True\<rparr>) \<and>
   (\<exists>self. PPO_init (\<lambda>g n. Suc n) (0 :: nat)
              (example_policy\<lparr>action_distribution_type := Some ''categorical''\<rparr>) example_args
            = Inr self \<and>
      entropy_coef self = Fixed (1 / 100))"
proof -
  have p: "parameters example_policy \<noteq> []"
    by (simp add: example_policy_def)
  have p': "parameters (example_policy\<lparr>action_distribution_type := Some ''categorical''\<rparr>) \<noteq> []"
    by (simp add: example_policy_def)
  from adaptive_entropy_activation[OF p, of "\<lambda>g n. Suc n" "0 :: nat" example_args]
  have a: "\<exists>self. PPO_init (\<lambda>g n. Suc n) (0 :: nat) example_policy example_args = Inr self \<and>
      entropy_coef self =
        Lagrange \<lparr>threshold = - 1, alpha = 1 / 100, alpha_max = 1, alpha_min = 1 / 10000,
                  greater_than = True\<rparr>"
    by (simp add: example_policy_def example_args_def)
  from adaptive_entropy_activation[OF p', of "\<lambda>g n. Suc n" "0 :: nat" example_args]
  have b: "\<exists>self. PPO_init (\<lambda>g n. Suc n) (0 :: nat)
              (example_policy\<lparr>action_distribution_type := Some ''categorical''\<rparr>) example_args
            = Inr self \<and> entropy_coef self = Fixed (1 / 100)"
    by (simp add: example_policy_def example_args_def)
  from p a b show ?thesis by blast
qed

lemma from_config_example:
  "from_config (\<lambda>g n. Suc n) 0 example_policy example_config [example_task] [''cpc'']
     (Some \<lparr>aux_entropy_coef = 1 / 100\<rparr>) = Inr example_updater"
  by (simp add: from_config_def PPO_init_def example_policy_def example_config_def
      example_updater_def example_task_def named_parameters_def create_optimizer_def
      coefficient_parameters_def LagrangeInequalityCoefficient_def Let_def)

lemma from_config_aux_loss_coef:
  "from_config step fresh ac cfg tasks names c = Inr self \<Longrightarrow> aux_loss_coef self = 0"
  by (auto simp: from_config_def PPO_init_def Let_def split: if_splits)

lemma example_reduced_losses:
  "reduced_losses (example_updater\<lparr>aux_loss_coef := w\<rparr>) example_output example_batch
     = (0, 17 / 100, 2)"
  by (simp add: reduced_losses_def mean_fn_def tmean_def action_loss_def value_loss_def
      selected_values_def ratio_def clamp_def Let_def example_updater_def example_output_def
      example_batch_def power2_eq_square)

lemma example_total_loss:
  "total_loss (example_updater\<lparr>aux_loss_coef := w\<rparr>) example_output example_batch
     = Inr (1 / 8 + 2 * w)"
  unfolding total_loss_def example_reduced_losses
  by (simp add: Let_def example_updater_def example_policy_def example_output_def
      lagrangian_loss_def)

text \<open>
  Claim C8 on the code. The configuration asks for an auxiliary weight of one half, the
  policy is attentive and there is one auxiliary task with loss \<open>2\<close>. The updater
  \<^verbatim>\<open>from_config\<close> builds has the weight \<open>0\<close>, and the total loss of the minibatch
  is \<open>1/8\<close>: the auxiliary term is missing. With the configured weight the loss is
  \<open>9/8\<close>.
\<close>

theorem from_config_ignores_aux_loss_coef:
  "cfg_aux_loss_coef example_config = 1 / 2 \<and>
   from_config (\<lambda>g n. Suc n) 0 example_policy example_config [example_task] [''cpc'']
     (Some \<lparr>aux_entropy_coef = 1 / 100\<rparr>) = Inr example_updater \<and>
   aux_loss_coef example_updater = 0 \<and>
   is_attentive (actor_critic example_updater) \<and>
   aux_tasks example_updater = [example_task] \<and>
   aux_raw_losses example_output = [2] \<and>
   total_loss example_updater example_output example_batch = Inr (1 / 8) \<and>
   total_loss (example_updater\<lparr>aux_loss_coef := cfg_aux_loss_coef example_config\<rparr>)
     example_output example_batch = Inr (9 / 8)"
proof -
  have "example_updater\<lparr>aux_loss_coef := 0\<rparr> = example_updater"
    by (simp add: example_updater_def)
  with example_total_loss[of 0]
  have t0: "total_loss example_updater example_output example_batch = Inr (1 / 8)"
    by simp
  have c: "cfg_aux_loss_coef example_config = 1 / 2"
    by (simp add: example_config_def)
  have t1: "total_loss (example_updater\<lparr>aux_loss_coef := cfg_aux_loss_coef example_config\<rparr>)
     example_output example_batch = Inr (9 / 8)"
    unfolding c example_total_loss by simp
  have rest: "aux_loss_coef example_updater = 0 \<and> is_attentive (actor_critic example_updater) \<and>
      aux_tasks example_updater = [example_task] \<and> aux_raw_losses example_output = [2]"
    by (simp add: example_updater_def example_policy_def example_output_def)
  from c from_config_example t0 t1 rest show ?thesis by blast
qed

section \<open>Properties of the resume state\<close>

text \<open>
  Claim C9. For an updater that has an optimizer, \<^verbatim>\<open>get_resume_state\<close> returns a
  mapping with the optimizer's state under \<^verbatim>\<open>"optim_state"\<close>, and
  \<^verbatim>\<open>load_state_dict\<close> on a mapping with that key puts the stored state in place of
  the optimizer's. On a mapping without the key \<^verbatim>\<open>load_state_dict\<close> returns the
  updater as it was, whether it has an optimizer or not.
\<close>

theorem optimizer_state_resume:
  "(optimizer self = Some opt \<longrightarrow>
      (\<exists>m. get_resume_state self = Inr m \<and> m ''optim_state'' = Some (state opt))) \<and>
   (optimizer self = Some opt \<and> st ''optim_state'' = Some s \<longrightarrow>
      load_state_dict self st = Inr (self\<lparr>optimizer := Some (opt\<lparr>state := s\<rparr>)\<rparr>)) \<and>
   (st' ''optim_state'' = None \<longrightarrow> load_state_dict self st' = Inr self)"
  by (simp add: get_resume_state_def load_state_dict_def state_dict_def
      optimizer_load_state_dict_def)

theorem optimizer_state_resume_witness:
  "(\<exists>opt. optimizer example_updater = Some opt \<and>
      (\<exists>m. get_resume_state example_updater = Inr m \<and> m ''optim_state'' = Some 0) \<and>
      load_state_dict example_updater [''optim_state'' \<mapsto> 7] =
        Inr (example_updater\<lparr>optimizer := Some (opt\<lparr>state := 7\<rparr>)\<rparr>)) \<and>
   load_state_dict example_updater [''policy_state'' \<mapsto> 7] = Inr example_updater"
proof -
  have "\<exists>opt. optimizer example_updater = Some opt \<and> state opt = 0"
    by (simp add: example_updater_def)
  then obtain opt where opt: "optimizer example_updater = Some opt" and s: "state opt = 0"
    by blast
  have k: "[''optim_state'' \<mapsto> 7 :: nat] ''optim_state'' = Some 7"
    and n: "[''policy_state'' \<mapsto> 7 :: nat] ''optim_state'' = None"
    by simp_all
  note r = optimizer_state_resume[of example_updater opt "[''optim_state'' \<mapsto> 7]" 7 "[''policy_state'' \<mapsto> 7]"]
  from r opt s have a: "\<exists>m. get_resume_state example_updater = Inr m \<and> m ''optim_state'' = Some 0"
    by metis
  from r opt k have b: "load_state_dict example_updater [''optim_state'' \<mapsto> 7] =
        Inr (example_updater\<lparr>optimizer := Some (opt\<lparr>state := 7\<rparr>)\<rparr>)"
    by blast
  from r n have c: "load_state_dict example_updater [''policy_state'' \<mapsto> 7] = Inr example_updater"
    by blast
  from opt a b c show ?thesis by blast
qed

section \<open>Properties of the metrics\<close>

lemma append_metric_other: "k \<noteq> k' \<Longrightarrow> append_metric k' v lm k = lm k"
  by (simp add: append_metric_def)

lemma and_then_Inr:
  "and_then r f = Inr y \<Longrightarrow> \<exists>x. r = Inr x \<and> f x = Inr y"
  by (cases r) (simp_all add: and_then_def)

lemma record_min_mean_max_other:
  assumes "record_min_mean_max t pre lm = Inr lm'" and "\<not> prefix pre k"
  shows "lm' k = lm k"
proof -
  have "k \<noteq> pre @ s" for s
    using assms(2) by auto
  with assms(1) show ?thesis
    by (auto simp: record_min_mean_max_def append_metric_other split: if_splits)
qed

lemma record_aux_loss_res_other:
  assumes "\<not> prefix ''aux_'' k"
  shows "record_aux_loss_res res lm k = lm k"
proof -
  have inner: "fold (\<lambda>(k', v) lm. append_metric (''aux_'' @ name @ ''_'' @ k') v lm) r lm k = lm k"
    for name r lm
  proof (induction r arbitrary: lm)
    case Nil
    then show ?case by simp
  next
    case (Cons a r)
    obtain k' v where a: "a = (k', v)" by (cases a)
    have neq: "k \<noteq> ''aux_'' @ name @ ''_'' @ k'"
      using assms by (metis prefixI)
    have "fold (\<lambda>(k', v) lm. append_metric (''aux_'' @ name @ ''_'' @ k') v lm) (a # r) lm k =
        fold (\<lambda>(k', v) lm. append_metric (''aux_'' @ name @ ''_'' @ k') v lm) r
          (append_metric (''aux_'' @ name @ ''_'' @ k') v lm) k"
      unfolding a by simp
    also have "\<dots> = append_metric (''aux_'' @ name @ ''_'' @ k') v lm k"
      by (rule Cons.IH)
    also have "\<dots> = lm k"
      using neq by (rule append_metric_other)
    finally show ?case .
  qed
  show ?thesis
    unfolding record_aux_loss_res_def
  proof (induction res arbitrary: lm)
    case Nil
    then show ?case by simp
  next
    case (Cons a res)
    obtain name r where a: "a = (name, r)" by (cases a)
    let ?g = "\<lambda>(name, r) lm.
        fold (\<lambda>(k', v) lm. append_metric (''aux_'' @ name @ ''_'' @ k') v lm) r lm"
    have "fold ?g (a # res) lm k =
        fold ?g res (fold (\<lambda>(k', v) lm. append_metric (''aux_'' @ name @ ''_'' @ k') v lm) r lm) k"
      unfolding a by simp
    also have "\<dots> = fold (\<lambda>(k', v) lm. append_metric (''aux_'' @ name @ ''_'' @ k') v lm) r lm k"
      by (rule Cons.IH)
    also have "\<dots> = lm k"
      by (rule inner)
    finally show ?case .
  qed
qed

lemma record_named_other:
  assumes "record_named pre names i vs lm = Inr lm'" and "\<not> prefix pre k"
  shows "lm' k = lm k"
  using assms
proof (induction vs arbitrary: i lm)
  case Nil
  then show ?case by simp
next
  case (Cons v vs)
  from Cons.prems(1) have i: "i < length names"
    and rest: "record_named pre names (Suc i) vs (append_metric (pre @ names ! i) v lm) = Inr lm'"
    by (auto split: if_splits)
  have "k \<noteq> pre @ names ! i"
    using Cons.prems(2) by auto
  with Cons.IH[OF rest Cons.prems(2)] show ?case
    by (simp add: append_metric_other)
qed

lemma record_ranges_fraction:
  assumes "record_ranges ev b lm = Inr lm'"
  shows "lm' ''ppo_fraction_clipped'' = lm ''ppo_fraction_clipped''"
proof -
  from assms obtain lm1 lm2 where
    s1: "(case batch_is_coeffs b of
            Some is_coeffs \<Rightarrow> record_min_mean_max is_coeffs ''ver_is_coeffs'' lm
          | None \<Rightarrow> Inr lm) = Inr lm1"
    and s2: "record_min_mean_max (values' ev) ''value_pred'' lm1 = Inr lm2"
    and s3: "record_min_mean_max (ratio ev b) ''prob_ratio'' lm2 = Inr lm'"
    unfolding record_ranges_def by (blast dest: and_then_Inr)
  have k1: "lm1 ''ppo_fraction_clipped'' = lm ''ppo_fraction_clipped''"
  proof (cases "batch_is_coeffs b")
    case None
    with s1 show ?thesis by simp
  next
    case (Some c)
    with s1 have "record_min_mean_max c ''ver_is_coeffs'' lm = Inr lm1" by simp
    then show ?thesis by (rule record_min_mean_max_other) simp
  qed
  have k2: "lm2 ''ppo_fraction_clipped'' = lm1 ''ppo_fraction_clipped''"
    using s2 by (rule record_min_mean_max_other) simp
  have k3: "lm' ''ppo_fraction_clipped'' = lm2 ''ppo_fraction_clipped''"
    using s3 by (rule record_min_mean_max_other) simp
  show ?thesis unfolding k3 k2 k1 ..
qed

lemma record_losses_fraction:
  "record_losses self ev b epoch grad_norm lm ''ppo_fraction_clipped'' =
     lm ''ppo_fraction_clipped'' @
     (if int epoch = ppo_epoch self - 1 then [ppo_fraction_clipped self (ratio ev b)] else [])"
  by (cases "reduced_losses self ev b")
     (simp add: record_losses_def Let_def append_metric_def split: entropy_coef.split)

lemma record_aux_fraction:
  assumes "record_aux self ev lm = Inr lm'"
  shows "lm' ''ppo_fraction_clipped'' = lm ''ppo_fraction_clipped''"
proof (cases "length (aux_tasks self) = 0")
  case True
  with assms show ?thesis
    by (auto simp: record_aux_def record_aux_loss_res_other split: if_splits)
next
  case False
  with assms obtain lm1 where
    a: "record_named ''aux_entropy_'' (aux_names self) 0 (aux_raw_losses ev)
          (append_metric ''aux_entropy'' (aux_dist_entropy ev) lm) = Inr lm1"
    and b: "record_named ''aux_weights_'' (aux_names self) 0 (aux_weights ev) lm1 = Inr lm'"
    by (auto simp: record_aux_def split: if_splits dest!: and_then_Inr)
  have "lm' ''ppo_fraction_clipped'' = lm1 ''ppo_fraction_clipped''"
    using b by (rule record_named_other) simp
  also have "\<dots> = append_metric ''aux_entropy'' (aux_dist_entropy ev) lm ''ppo_fraction_clipped''"
    using a by (rule record_named_other) simp
  also have "\<dots> = lm ''ppo_fraction_clipped''"
    by (simp add: append_metric_other)
  finally show ?thesis .
qed

lemma record_staleness_fraction:
  assumes "record_staleness b rollouts lm = Inr lm'"
  shows "lm' ''ppo_fraction_clipped'' = lm ''ppo_fraction_clipped''"
proof -
  define lm1 where "lm1 = (case batch_is_stale b of
      Some is_stale \<Rightarrow>
        append_metric ''fraction_stale'' (tmean (map (\<lambda>s. if s then 1 else 0) is_stale)) lm
    | None \<Rightarrow> lm)"
  have k1: "lm1 ''ppo_fraction_clipped'' = lm ''ppo_fraction_clipped''"
    by (simp add: lm1_def append_metric_other split: option.split)
  from assms have r: "(case current_policy_version rollouts of
           None \<Rightarrow> Inr lm1
         | Some current \<Rightarrow>
             (case batch_policy_version b of
                None \<Rightarrow> Inl KeyError
              | Some version \<Rightarrow>
                  record_min_mean_max (map (\<lambda>v. real_of_int (current - v)) version)
                    ''policy_version_difference'' lm1)) = Inr lm'"
    unfolding record_staleness_def Let_def lm1_def .
  have "lm' ''ppo_fraction_clipped'' = lm1 ''ppo_fraction_clipped''"
  proof (cases "current_policy_version rollouts")
    case None
    then show ?thesis using r by simp
  next
    case (Some current)
    with r obtain version where
      "record_min_mean_max (map (\<lambda>v. real_of_int (current - v)) version)
         ''policy_version_difference'' lm1 = Inr lm'"
      by (auto split: option.splits)
    then show ?thesis by (rule record_min_mean_max_other) simp
  qed
  with k1 show ?thesis by simp
qed

text \<open>
  One minibatch appends one value under \<^verbatim>\<open>ppo_fraction_clipped\<close> in the epoch of
  index \<^verbatim>\<open>ppo_epoch - 1\<close> and nothing in any other epoch.
\<close>

lemma record_metrics_fraction:
  assumes "record_metrics self ev b epoch rollouts grad_norm lm = Inr lm'"
  shows "lm' ''ppo_fraction_clipped'' =
           lm ''ppo_fraction_clipped'' @
           (if int epoch = ppo_epoch self - 1
            then [ppo_fraction_clipped self (ratio ev b)] else [])"
proof -
  from assms obtain lm1 lm2 where
    s1: "record_ranges ev b lm = Inr lm1"
    and s2: "record_aux self ev (record_losses self ev b epoch grad_norm lm1) = Inr lm2"
    and s3: "record_staleness b rollouts lm2 = Inr lm'"
    unfolding record_metrics_def by (blast dest: and_then_Inr)
  show ?thesis
    unfolding record_staleness_fraction[OF s3] record_aux_fraction[OF s2]
      record_losses_fraction record_ranges_fraction[OF s1] ..
qed

lemma sum_list_indicator:
  "sum_list (map (\<lambda>x. if P x then 1 else 0) r) = real (length (filter P r))"
  by (induction r) simp_all

lemma ppo_fraction_clipped_count:
  "ppo_fraction_clipped self r =
     (real (length (filter (\<lambda>x. 1 + clip_param self < x) r)) +
      real (length (filter (\<lambda>x. x < 1 - clip_param self) r))) / real (length r)"
  unfolding ppo_fraction_clipped_def tmean_def sum_list_indicator length_map
  by (simp add: add_divide_distrib)

lemma ppo_fraction_clipped_cong:
  "clip_param self' = clip_param self \<Longrightarrow>
   ppo_fraction_clipped self' r = ppo_fraction_clipped self r"
  by (simp add: ppo_fraction_clipped_def)

lemma optimizer_step_frame:
  assumes "optimizer_step a st self = Inr self'"
  shows "clip_param self' = clip_param self" and "ppo_epoch self' = ppo_epoch self"
  using assms by (auto simp: optimizer_step_def split: option.splits)

lemma after_step_frame:
  "clip_param (after_step self) = clip_param self"
  "ppo_epoch (after_step self) = ppo_epoch self"
  by (simp_all add: after_step_def split: entropy_coef.split)

lemma update_from_batch_fraction:
  assumes "update_from_batch mb epoch rollouts (self, st, lm) = Inr (self', st', lm')"
  shows "clip_param self' = clip_param self"
    and "ppo_epoch self' = ppo_epoch self"
    and "lm' ''ppo_fraction_clipped'' =
           lm ''ppo_fraction_clipped'' @
           (if int epoch = ppo_epoch self - 1
            then [ppo_fraction_clipped self (ratio (mb_output mb) (mb_batch mb))] else [])"
proof -
  from assms obtain st1 loss st2 grad_norm self1 where
    "set_grads_to_none self st = Inr st1"
    and "total_loss self (mb_output mb) (mb_batch mb) = Inr loss"
    and "before_step (mb_group mb) self (st1\<lparr>grad := mb_backward mb\<rparr>) = Inr (st2, grad_norm)"
    and opt: "optimizer_step (mb_stepped_alpha mb) st2 self = Inr self1"
    and rec: "record_metrics (after_step self1) (mb_output mb) (mb_batch mb) epoch rollouts
                grad_norm lm = Inr lm'"
    and self': "self' = after_step self1"
    unfolding update_from_batch_def
    by (auto simp: Let_def dest!: and_then_Inr)
  show c: "clip_param self' = clip_param self"
    unfolding self' after_step_frame by (rule optimizer_step_frame[OF opt])
  show e: "ppo_epoch self' = ppo_epoch self"
    unfolding self' after_step_frame by (rule optimizer_step_frame[OF opt])
  show "lm' ''ppo_fraction_clipped'' =
           lm ''ppo_fraction_clipped'' @
           (if int epoch = ppo_epoch self - 1
            then [ppo_fraction_clipped self (ratio (mb_output mb) (mb_batch mb))] else [])"
  proof -
    have eq: "ppo_fraction_clipped self' = ppo_fraction_clipped self"
      using c by (intro ext ppo_fraction_clipped_cong)
    from record_metrics_fraction[OF rec] show ?thesis
      unfolding self'[symmetric] eq e .
  qed
qed

lemma update_batches_fraction:
  assumes "update_batches epoch rollouts mbs (self, st, lm) = Inr (self', st', lm')"
  shows "clip_param self' = clip_param self \<and> ppo_epoch self' = ppo_epoch self \<and>
         lm' ''ppo_fraction_clipped'' =
           lm ''ppo_fraction_clipped'' @
           (if int epoch = ppo_epoch self - 1
            then map (\<lambda>mb. ppo_fraction_clipped self (ratio (mb_output mb) (mb_batch mb))) mbs
            else [])"
  using assms
proof (induction mbs arbitrary: self st lm)
  case Nil
  then show ?case by simp
next
  case (Cons mb mbs)
  from Cons.prems obtain self1 st1 lm1 where
    step: "update_from_batch mb epoch rollouts (self, st, lm) = Inr (self1, st1, lm1)"
    and rest: "update_batches epoch rollouts mbs (self1, st1, lm1) = Inr (self', st', lm')"
    by (auto dest!: and_then_Inr)
  note s = update_from_batch_fraction[OF step]
  from s have eq: "ppo_fraction_clipped self1 = ppo_fraction_clipped self"
    by (intro ext ppo_fraction_clipped_cong)
  from Cons.IH[OF rest] s show ?case
    unfolding eq by simp
qed

lemma update_epochs_fraction:
  assumes "update_epochs gen rollouts epochs (self, st, lm) = Inr (self', st', lm')"
  shows "clip_param self' = clip_param self \<and> ppo_epoch self' = ppo_epoch self \<and>
         lm' ''ppo_fraction_clipped'' =
           lm ''ppo_fraction_clipped'' @
           concat (map (\<lambda>epoch. if int epoch = ppo_epoch self - 1
             then map (\<lambda>mb. ppo_fraction_clipped self (ratio (mb_output mb) (mb_batch mb)))
                    (gen epoch)
             else []) epochs)"
  using assms
proof (induction epochs arbitrary: self st lm)
  case Nil
  then show ?case by simp
next
  case (Cons epoch epochs)
  from Cons.prems obtain self1 st1 lm1 where
    step: "update_batches epoch rollouts (gen epoch) (self, st, lm) = Inr (self1, st1, lm1)"
    and rest: "update_epochs gen rollouts epochs (self1, st1, lm1) = Inr (self', st', lm')"
    by (auto dest!: and_then_Inr)
  note s = update_batches_fraction[OF step]
  from s have eq: "ppo_fraction_clipped self1 = ppo_fraction_clipped self"
    by (intro ext ppo_fraction_clipped_cong) simp
  from Cons.IH[OF rest] s show ?case
    unfolding eq by simp
qed

lemma concat_single_epoch:
  "concat (map (\<lambda>e. if e = m then g e else []) [0..<n]) = (if m < n then g m else [])"
  by (induction n) auto

lemma final_epoch_only:
  "concat (map (\<lambda>epoch. if int epoch = N - 1 then g epoch else []) [0..<nat N]) =
     (if 0 < N then g (nat (N - 1)) else [])"
proof (cases "0 < N")
  case True
  then have "(\<lambda>epoch. if int epoch = N - 1 then g epoch else []) =
      (\<lambda>epoch. if epoch = nat (N - 1) then g epoch else [])"
    by (intro ext) auto
  with True show ?thesis
    by (simp add: concat_single_epoch)
next
  case False
  then show ?thesis by simp
qed

text \<open>
  Claim C6. The value recorded under \<^verbatim>\<open>ppo_fraction_clipped\<close> is the share of
  samples whose ratio is above \<open>1 + clip_param\<close> plus the share of those below
  \<open>1 - clip_param\<close>, both strictly, so a sample on either boundary adds nothing. One
  minibatch appends that value in the epoch of index \<^verbatim>\<open>ppo_epoch - 1\<close> and nothing
  in any other epoch; after the loop of \<^verbatim>\<open>update\<close> the metric holds the values of
  the minibatches of the last epoch and no other.
\<close>

theorem fraction_clipped_final_epoch:
  "ppo_fraction_clipped self r =
     (real (length (filter (\<lambda>x. 1 + clip_param self < x) r)) +
      real (length (filter (\<lambda>x. x < 1 - clip_param self) r))) / real (length r) \<and>
   (0 \<le> clip_param self \<longrightarrow>
      ppo_fraction_clipped self [1 + clip_param self, 1 - clip_param self] = 0) \<and>
   (update_from_batch mb epoch rollouts (self, st, lm) = Inr (self', st', lm') \<longrightarrow>
      lm' ''ppo_fraction_clipped'' =
        lm ''ppo_fraction_clipped'' @
        (if int epoch = ppo_epoch self - 1
         then [ppo_fraction_clipped self (ratio (mb_output mb) (mb_batch mb))] else [])) \<and>
   (update_epochs gen rollouts [0..<nat (ppo_epoch self)] (self, st, \<lambda>k. []) =
      Inr (self'', st'', lm'') \<longrightarrow>
      lm'' ''ppo_fraction_clipped'' =
        (if 0 < ppo_epoch self
         then map (\<lambda>mb. ppo_fraction_clipped self (ratio (mb_output mb) (mb_batch mb)))
                (gen (nat (ppo_epoch self - 1)))
         else []))"
proof (intro conjI impI)
  show "ppo_fraction_clipped self r =
     (real (length (filter (\<lambda>x. 1 + clip_param self < x) r)) +
      real (length (filter (\<lambda>x. x < 1 - clip_param self) r))) / real (length r)"
    by (rule ppo_fraction_clipped_count)
  show "ppo_fraction_clipped self [1 + clip_param self, 1 - clip_param self] = 0"
    if "0 \<le> clip_param self"
    using that by (simp add: ppo_fraction_clipped_count)
  show "lm' ''ppo_fraction_clipped'' =
        lm ''ppo_fraction_clipped'' @
        (if int epoch = ppo_epoch self - 1
         then [ppo_fraction_clipped self (ratio (mb_output mb) (mb_batch mb))] else [])"
    if "update_from_batch mb epoch rollouts (self, st, lm) = Inr (self', st', lm')"
    using that by (rule update_from_batch_fraction)
  show "lm'' ''ppo_fraction_clipped'' =
        (if 0 < ppo_epoch self
         then map (\<lambda>mb. ppo_fraction_clipped self (ratio (mb_output mb) (mb_batch mb)))
                (gen (nat (ppo_epoch self - 1)))
         else [])"
    if "update_epochs gen rollouts [0..<nat (ppo_epoch self)] (self, st, \<lambda>k. []) =
          Inr (self'', st'', lm'')"
    using update_epochs_fraction[OF that] by (simp add: final_epoch_only)
qed

lemma record_named_returns:
  "i + length vs \<le> length names \<Longrightarrow> \<exists>lm'. record_named pre names i vs lm = Inr lm'"
  by (induction vs arbitrary: i lm) simp_all

lemma before_step_returns:
  "max_grad_norm self = Some m \<Longrightarrow> \<exists>st' g. before_step grp self st = Inr (st', g)"
  by (simp add: before_step_def Let_def split: prod.split)

text \<open>
  A minibatch step of an attentive policy with auxiliary tasks returns when the updater has
  an optimizer and a clipping threshold, the policy returned at least one value, and no
  more auxiliary losses and weights than there are task names. It changes nothing of the
  updater but the optimizer and the entropy coefficient.
\<close>

lemma update_from_batch_returns:
  assumes opt: "optimizer self \<noteq> None"
    and norm: "max_grad_norm self \<noteq> None"
    and att: "is_attentive (actor_critic self)"
    and cfg: "aux_cfg self \<noteq> None"
    and tasks: "aux_tasks self \<noteq> []"
    and losses: "length (aux_raw_losses (mb_output mb)) \<le> length (aux_names self)"
    and weights: "length (aux_weights (mb_output mb)) \<le> length (aux_names self)"
    and vals: "values' (mb_output mb) \<noteq> []"
    and rat: "ratio (mb_output mb) (mb_batch mb) \<noteq> []"
    and coeffs: "batch_is_coeffs (mb_batch mb) = None"
    and ver: "current_policy_version rollouts = None"
  shows "\<exists>self' st' lm'.
           update_from_batch mb epoch rollouts (self, st, lm) = Inr (self', st', lm') \<and>
           optimizer self' \<noteq> None \<and>
           self'\<lparr>optimizer := optimizer self, entropy_coef := entropy_coef self\<rparr> = self"
proof -
  from opt obtain st1 where s1: "set_grads_to_none self st = Inr st1"
    by (auto simp: set_grads_to_none_def)
  from att cfg tasks obtain loss where s2: "total_loss self (mb_output mb) (mb_batch mb) = Inr loss"
    by (cases "reduced_losses self (mb_output mb) (mb_batch mb)")
       (auto simp: total_loss_def Let_def)
  from norm obtain st2 g where
    s3: "before_step (mb_group mb) self (st1\<lparr>grad := mb_backward mb\<rparr>) = Inr (st2, g)"
    using before_step_returns by blast
  from opt obtain self1 where s4: "optimizer_step (mb_stepped_alpha mb) st2 self = Inr self1"
    and o1: "optimizer self1 \<noteq> None"
    and f1: "self1\<lparr>optimizer := optimizer self, entropy_coef := entropy_coef self\<rparr> = self"
    by (auto simp: optimizer_step_def)
  let ?self = "after_step self1"
  have o2: "optimizer ?self \<noteq> None"
    using o1 by (simp add: after_step_def split: entropy_coef.split)
  have f2: "?self\<lparr>optimizer := optimizer self, entropy_coef := entropy_coef self\<rparr> = self"
    using f1 by (auto simp: after_step_def split: entropy_coef.split)
  have keep: "aux_tasks ?self = aux_tasks self" "aux_names ?self = aux_names self"
    "actor_critic ?self = actor_critic self"
    using arg_cong[OF f2, of aux_tasks] arg_cong[OF f2, of aux_names]
      arg_cong[OF f2, of actor_critic] by simp_all
  from vals rat coeffs obtain lm1 where r1: "record_ranges (mb_output mb) (mb_batch mb) lm = Inr lm1"
    by (auto simp: record_ranges_def record_min_mean_max_def and_then_def)
  let ?lm2 = "record_losses ?self (mb_output mb) (mb_batch mb) epoch g lm1"
  from losses obtain lm3 where
    n1: "record_named ''aux_entropy_'' (aux_names self) 0 (aux_raw_losses (mb_output mb))
           (append_metric ''aux_entropy'' (aux_dist_entropy (mb_output mb)) ?lm2) = Inr lm3"
    using record_named_returns[of 0 "aux_raw_losses (mb_output mb)" "aux_names self"] by auto
  from weights obtain lm4 where
    n2: "record_named ''aux_weights_'' (aux_names self) 0 (aux_weights (mb_output mb)) lm3 = Inr lm4"
    using record_named_returns[of 0 "aux_weights (mb_output mb)" "aux_names self"] by auto
  have r2: "record_aux ?self (mb_output mb) ?lm2 = Inr lm4"
    using att tasks n1 n2 by (simp add: record_aux_def keep and_then_def)
  from ver obtain lm5 where r3: "record_staleness (mb_batch mb) rollouts lm4 = Inr lm5"
    by (simp add: record_staleness_def Let_def)
  have r: "record_metrics ?self (mb_output mb) (mb_batch mb) epoch rollouts g lm = Inr lm5"
    by (simp add: record_metrics_def r1 r2 r3 and_then_def)
  have "update_from_batch mb epoch rollouts (self, st, lm) = Inr (?self, st2, lm5)"
    by (simp add: update_from_batch_def s1 s2 s3 s4 r and_then_def)
  with o2 f2 show ?thesis by blast
qed

lemma example_updater_ready:
  "optimizer example_updater \<noteq> None" "max_grad_norm example_updater \<noteq> None"
  "is_attentive (actor_critic example_updater)" "aux_cfg example_updater \<noteq> None"
  "aux_tasks example_updater \<noteq> []"
  "length (aux_raw_losses (mb_output example_minibatch)) \<le> length (aux_names example_updater)"
  "length (aux_weights (mb_output example_minibatch)) \<le> length (aux_names example_updater)"
  by (simp_all add: example_updater_def example_policy_def example_minibatch_def
      example_output_def)

lemma example_minibatch_ready:
  "values' (mb_output example_minibatch) \<noteq> []"
  "ratio (mb_output example_minibatch) (mb_batch example_minibatch) \<noteq> []"
  "batch_is_coeffs (mb_batch example_minibatch) = None"
  "current_policy_version example_rollouts = None"
  by (simp_all add: example_minibatch_def example_output_def example_batch_def ratio_def
      example_rollouts_def)

text \<open>The example updater runs its two epochs of one minibatch each.\<close>

lemma example_update_epochs:
  "\<exists>self' st' lm'.
     update_from_batch example_minibatch 0 example_rollouts
       (example_updater, example_state, \<lambda>k. []) = Inr (self', st', lm') \<and>
     (\<exists>s. update_epochs (\<lambda>epoch. [example_minibatch]) example_rollouts
            [0..<nat (ppo_epoch example_updater)] (example_updater, example_state, \<lambda>k. []) = Inr s)"
proof -
  from update_from_batch_returns[OF example_updater_ready example_minibatch_ready]
  obtain self1 st1 lm1 where
    s1: "update_from_batch example_minibatch 0 example_rollouts
           (example_updater, example_state, \<lambda>k. []) = Inr (self1, st1, lm1)"
    and o1: "optimizer self1 \<noteq> None"
    and f1: "self1\<lparr>optimizer := optimizer example_updater,
                    entropy_coef := entropy_coef example_updater\<rparr> = example_updater"
    by blast
  have ready1: "max_grad_norm self1 \<noteq> None"
    "is_attentive (actor_critic self1)" "aux_cfg self1 \<noteq> None"
    "aux_tasks self1 \<noteq> []"
    "length (aux_raw_losses (mb_output example_minibatch)) \<le> length (aux_names self1)"
    "length (aux_weights (mb_output example_minibatch)) \<le> length (aux_names self1)"
    using example_updater_ready(2-7)
      arg_cong[OF f1, of max_grad_norm] arg_cong[OF f1, of actor_critic]
      arg_cong[OF f1, of aux_cfg] arg_cong[OF f1, of aux_tasks] arg_cong[OF f1, of aux_names]
    by simp_all
  from update_from_batch_returns[OF o1 ready1 example_minibatch_ready]
  obtain s2 where
    s2: "update_from_batch example_minibatch (Suc 0) example_rollouts (self1, st1, lm1) = Inr s2"
    by blast
  have e: "[0..<nat (ppo_epoch example_updater)] = [0, 1]"
    by (simp add: example_updater_def upt_rec)
  have "update_epochs (\<lambda>epoch. [example_minibatch]) example_rollouts
          [0..<nat (ppo_epoch example_updater)] (example_updater, example_state, \<lambda>k. []) = Inr s2"
    unfolding e by (simp add: s1 s2 and_then_def)
  with s1 show ?thesis by blast
qed

theorem fraction_clipped_final_epoch_witness:
  "0 \<le> clip_param example_updater \<and>
   ppo_fraction_clipped example_updater
     [1 + clip_param example_updater, 1 - clip_param example_updater] = 0 \<and>
   (\<exists>self' st' lm'.
      update_from_batch example_minibatch 0 example_rollouts
        (example_updater, example_state, \<lambda>k. []) = Inr (self', st', lm') \<and>
      lm' ''ppo_fraction_clipped'' = []) \<and>
   (\<exists>self' st' lm'.
      update_epochs (\<lambda>epoch. [example_minibatch]) example_rollouts
        [0..<nat (ppo_epoch example_updater)] (example_updater, example_state, \<lambda>k. [])
        = Inr (self', st', lm') \<and>
      lm' ''ppo_fraction_clipped'' =
        [ppo_fraction_clipped example_updater (ratio example_output example_batch)])"
proof -
  have c: "0 \<le> clip_param example_updater"
    by (simp add: example_updater_def)
  have e: "ppo_epoch example_updater = 2"
    by (simp add: example_updater_def)
  from example_update_epochs obtain self1 st1 lm1 self2 st2 lm2 where
    s1: "update_from_batch example_minibatch 0 example_rollouts
           (example_updater, example_state, \<lambda>k. []) = Inr (self1, st1, lm1)"
    and s2: "update_epochs (\<lambda>epoch. [example_minibatch]) example_rollouts
            [0..<nat (ppo_epoch example_updater)] (example_updater, example_state, \<lambda>k. [])
            = Inr (self2, st2, lm2)"
    by (metis prod_cases3)
  note t1 = fraction_clipped_final_epoch[of example_updater "[]" example_minibatch 0
      example_rollouts example_state "\<lambda>k. []" self1 st1 lm1 "\<lambda>epoch. [example_minibatch]"
      self2 st2 lm2]
  from t1 c have a: "ppo_fraction_clipped example_updater
     [1 + clip_param example_updater, 1 - clip_param example_updater] = 0"
    by blast
  from t1 s1 have b: "lm1 ''ppo_fraction_clipped'' = []"
    by (simp add: e)
  from t1 s2 have d: "lm2 ''ppo_fraction_clipped'' =
        [ppo_fraction_clipped example_updater (ratio example_output example_batch)]"
    by (simp add: e example_minibatch_def)
  from c a b d s1 s2 show ?thesis by blast
qed

section \<open>Properties of the gradient step\<close>

lemma fold_mul_grad_other:
  "q \<notin> set ps \<Longrightarrow> grad (fold (mul_grad c) ps st) q = grad st q"
  by (induction ps arbitrary: st) (auto simp: mul_grad_def split: option.split)

lemma fold_mul_grad_in_flight:
  "in_flight (fold (mul_grad c) ps st) = in_flight st"
  by (induction ps arbitrary: st) (auto simp: mul_grad_def split: option.split)

text \<open>\<^verbatim>\<open>clip_grad_norm_\<close> writes the gradients of its parameters only.\<close>

lemma clip_grad_norm_other:
  "q \<notin> set ps \<Longrightarrow> grad (fst (clip_grad_norm ps m st)) q = grad st q"
  by (simp add: clip_grad_norm_def Let_def fold_mul_grad_other)

lemma clip_grad_norm_in_flight:
  "in_flight (fst (clip_grad_norm ps m st)) = in_flight st"
  by (simp add: clip_grad_norm_def Let_def fold_mul_grad_in_flight)

lemma clip_groups_other:
  "\<forall>v\<in>set vs. q \<notin> set (in_updater v) \<Longrightarrow>
   grad (fold (\<lambda>v s. fst (clip_grad_norm (in_updater v) m s)) vs st) q = grad st q"
  by (induction vs arbitrary: st) (simp_all add: clip_grad_norm_other)

lemma clip_groups_in_flight:
  "in_flight (fold (\<lambda>v s. fst (clip_grad_norm (in_updater v) m s)) vs st) = in_flight st"
  by (induction vs arbitrary: st) (simp_all add: clip_grad_norm_in_flight)

lemma in_updater_prefix: "q \<in> set (in_updater v) \<Longrightarrow> prefix ''actor_critic.'' q"
  by (auto simp: in_updater_def)

text \<open>
  The loop over \<^verbatim>\<open>non_ac_params\<close>: what it leaves in the gradients, and the handles
  it has issued, in the order of the parameters.
\<close>

lemma fold_sync_grad:
  assumes "distinct ps"
  shows "fold (sync_grad pg) ps (st, hs) =
     (st\<lparr>grad := (\<lambda>q. if q \<in> set ps
                        then map_option (map (\<lambda>x. x / real (world_size pg))) (grad st q)
                        else grad st q),
         in_flight := in_flight st @
           concat (map (\<lambda>p. case grad st p of
                               None \<Rightarrow> []
                             | Some g \<Rightarrow>
                                 [\<lparr>h_param = p,
                                   h_reduced = foldl tensor_add
                                     (map (\<lambda>x. x / real (world_size pg)) g) (peers pg p)\<rparr>])
                        ps)\<rparr>,
      hs @
        concat (map (\<lambda>p. case grad st p of
                            None \<Rightarrow> []
                          | Some g \<Rightarrow>
                              [\<lparr>h_param = p,
                                h_reduced = foldl tensor_add
                                  (map (\<lambda>x. x / real (world_size pg)) g) (peers pg p)\<rparr>])
                     ps))"
  using assms
proof (induction ps arbitrary: st hs)
  case Nil
  then show ?case by simp
next
  case (Cons p ps)
  from Cons.prems have p: "p \<notin> set ps" and d: "distinct ps" by simp_all
  show ?case
  proof (cases "grad st p")
    case None
    have "fold (sync_grad pg) (p # ps) (st, hs) = fold (sync_grad pg) ps (st, hs)"
      by (simp add: sync_grad_def None)
    also note Cons.IH[OF d]
    finally show ?thesis
      using None by (auto intro!: grad_state.equality ext)
  next
    case (Some g)
    let ?g = "map (\<lambda>x. x / real (world_size pg)) g"
    let ?h = "\<lparr>h_param = p, h_reduced = foldl tensor_add ?g (peers pg p)\<rparr>"
    let ?st = "st\<lparr>grad := (grad st)(p \<mapsto> ?g), in_flight := in_flight st @ [?h]\<rparr>"
    have same: "map (\<lambda>p. case grad ?st p of None \<Rightarrow> [] | Some g \<Rightarrow>
                    [\<lparr>h_param = p, h_reduced = foldl tensor_add
                        (map (\<lambda>x. x / real (world_size pg)) g) (peers pg p)\<rparr>]) ps =
                map (\<lambda>p. case grad st p of None \<Rightarrow> [] | Some g \<Rightarrow>
                    [\<lparr>h_param = p, h_reduced = foldl tensor_add
                        (map (\<lambda>x. x / real (world_size pg)) g) (peers pg p)\<rparr>]) ps"
      using p by (intro map_cong) auto
    have "fold (sync_grad pg) (p # ps) (st, hs) = fold (sync_grad pg) ps (?st, hs @ [?h])"
      by (simp add: sync_grad_def Some all_reduce_def Let_def)
    also note Cons.IH[OF d]
    finally show ?thesis
      unfolding same using Some p by (auto intro!: grad_state.equality ext)
  qed
qed

lemma fold_wait_other:
  "q \<notin> h_param ` set hs \<Longrightarrow> grad (fold wait hs st) q = grad st q"
  by (induction hs arbitrary: st) (simp_all add: wait_def)

lemma fold_wait_reduced:
  "distinct (map h_param hs) \<Longrightarrow> h \<in> set hs \<Longrightarrow>
   grad (fold wait hs st) (h_param h) = Some (h_reduced h)"
proof (induction hs arbitrary: st)
  case Nil
  then show ?case by simp
next
  case (Cons a hs)
  show ?case
  proof (cases "h \<in> set hs")
    case True
    with Cons show ?thesis by simp
  next
    case False
    with Cons.prems have "h = a" and "h_param a \<notin> h_param ` set hs" by auto
    then show ?thesis
      by (simp add: fold_wait_other) (simp add: wait_def)
  qed
qed

lemma fold_wait_in_flight:
  "in_flight (fold wait hs st) = fold remove1 hs (in_flight st)"
  by (induction hs arbitrary: st) (simp_all add: wait_def)

lemma fold_remove1_all: "fold remove1 hs (hs @ rest) = rest"
  by (induction hs) simp_all

text \<open>The handles the loop issues: one for each parameter whose gradient is present.\<close>

lemma issued_params:
  "map h_param (concat (map (\<lambda>p. case grad st p of
       None \<Rightarrow> []
     | Some g \<Rightarrow> [\<lparr>h_param = p, h_reduced = f p g\<rparr>]) ps)) =
   filter (\<lambda>p. grad st p \<noteq> None) ps"
  by (induction ps) (auto split: option.split)

lemma issued_member:
  "grad st p = Some g \<Longrightarrow> p \<in> set ps \<Longrightarrow>
   \<lparr>h_param = p, h_reduced = f p g\<rparr> \<in>
     set (concat (map (\<lambda>p. case grad st p of
       None \<Rightarrow> []
     | Some g \<Rightarrow> [\<lparr>h_param = p, h_reduced = f p g\<rparr>]) ps))"
  by (induction ps) (auto split: option.split)

lemma fold_sync_grad_handles:
  "fold (sync_grad pg) ps (st, hs) = (st', hs') \<Longrightarrow> in_flight st = hs \<Longrightarrow> in_flight st' = hs'"
proof (induction ps arbitrary: st hs)
  case Nil
  then show ?case by simp
next
  case (Cons p ps)
  obtain s1 h1 where s1: "sync_grad pg p (st, hs) = (s1, h1)"
    by (cases "sync_grad pg p (st, hs)")
  with Cons.prems(2) have "in_flight s1 = h1"
    by (auto simp: sync_grad_def all_reduce_def Let_def split: option.splits)
  moreover from Cons.prems(1) s1 have "fold (sync_grad pg) ps (s1, h1) = (st', hs')"
    by simp
  ultimately show ?case by (rule Cons.IH[rotated])
qed

text \<open>
  Every handle \<^verbatim>\<open>before_step\<close> issues has been awaited when it returns: a worker
  that enters with no all-reduce in flight leaves with none.
\<close>

lemma before_step_in_flight:
  assumes "before_step pgroup self st = Inr (st', n)" and "in_flight st = []"
  shows "in_flight st' = []"
proof -
  obtain st1 hs where
    s1: "(case pgroup of None \<Rightarrow> (st, [])
          | Some pg \<Rightarrow> fold (sync_grad pg) (non_ac_params self) (st, [])) = (st1, hs)"
    by (cases "case pgroup of None \<Rightarrow> (st, [])
          | Some pg \<Rightarrow> fold (sync_grad pg) (non_ac_params self) (st, [])")
  have f1: "in_flight st1 = hs"
  proof (cases pgroup)
    case None
    with s1 assms(2) show ?thesis by auto
  next
    case (Some pg)
    with s1 have "fold (sync_grad pg) (non_ac_params self) (st, []) = (st1, hs)" by simp
    then show ?thesis using assms(2) by (rule fold_sync_grad_handles)
  qed
  from assms(1) obtain m where m: "max_grad_norm self = Some m"
    by (cases "max_grad_norm self") (auto simp: before_step_def s1)
  from assms(1) have "st' = fold wait hs
      (fold (\<lambda>v s. fst (clip_grad_norm (in_updater v) m s))
         (map snd (aux_loss_parameters (actor_critic self)))
         (fst (clip_grad_norm (in_updater (policy_parameters (actor_critic self))) m st1)))"
    by (simp add: before_step_def s1 m Let_def split: prod.splits)
  then have "in_flight st' = fold remove1 hs hs"
    by (simp add: fold_wait_in_flight clip_groups_in_flight clip_grad_norm_in_flight f1)
  with fold_remove1_all[of hs "[]"] show ?thesis by simp
qed

text \<open>
  What \<^verbatim>\<open>before_step\<close> does to the gradient of a parameter outside the policy
  module, with and without a process group.
\<close>

lemma before_step_non_ac:
  assumes d: "distinct (non_ac_params self)"
    and np: "\<forall>q\<in>set (non_ac_params self). \<not> prefix ''actor_critic.'' q"
    and p: "p \<in> set (non_ac_params self)"
    and ret: "before_step pgroup self st = Inr (st', n)"
  shows "grad st' p =
     (case pgroup of
        None \<Rightarrow> grad st p
      | Some pg \<Rightarrow>
          map_option (\<lambda>g. foldl tensor_add (map (\<lambda>x. x / real (world_size pg)) g) (peers pg p))
            (grad st p))"
proof -
  from ret obtain m where m: "max_grad_norm self = Some m"
    by (cases "max_grad_norm self") (auto simp: before_step_def split: prod.splits)
  from np p have nopre: "\<not> prefix ''actor_critic.'' p" by blast
  then have pol: "p \<notin> set (in_updater (policy_parameters (actor_critic self)))"
    and aux: "\<forall>v\<in>set (map snd (aux_loss_parameters (actor_critic self))). p \<notin> set (in_updater v)"
    using in_updater_prefix by blast+
  have clips: "grad (fold (\<lambda>v s. fst (clip_grad_norm (in_updater v) m s))
         (map snd (aux_loss_parameters (actor_critic self)))
         (fst (clip_grad_norm (in_updater (policy_parameters (actor_critic self))) m s))) p
       = grad s p" for s
    by (simp add: clip_groups_other[OF aux] clip_grad_norm_other[OF pol])
  show ?thesis
  proof (cases pgroup)
    case None
    with ret have "st' = fold (\<lambda>v s. fst (clip_grad_norm (in_updater v) m s))
         (map snd (aux_loss_parameters (actor_critic self)))
         (fst (clip_grad_norm (in_updater (policy_parameters (actor_critic self))) m st))"
      by (simp add: before_step_def m Let_def split: prod.splits)
    with None show ?thesis by (simp add: clips)
  next
    case (Some pg)
    let ?f = "\<lambda>p g. foldl tensor_add (map (\<lambda>x. x / real (world_size pg)) g) (peers pg p)"
    let ?hs = "concat (map (\<lambda>p. case grad st p of
                 None \<Rightarrow> [] | Some g \<Rightarrow> [\<lparr>h_param = p, h_reduced = ?f p g\<rparr>])
               (non_ac_params self))"
    let ?st1 = "st\<lparr>grad := (\<lambda>q. if q \<in> set (non_ac_params self)
                        then map_option (map (\<lambda>x. x / real (world_size pg))) (grad st q)
                        else grad st q),
         in_flight := in_flight st @ ?hs\<rparr>"
    have sync: "fold (sync_grad pg) (non_ac_params self) (st, []) = (?st1, ?hs)"
      using fold_sync_grad[OF d, of pg st "[]"] by simp
    let ?st3 = "fold (\<lambda>v s. fst (clip_grad_norm (in_updater v) m s))
         (map snd (aux_loss_parameters (actor_critic self)))
         (fst (clip_grad_norm (in_updater (policy_parameters (actor_critic self))) m ?st1))"
    from ret have st': "st' = fold wait ?hs ?st3"
      by (simp add: before_step_def Some sync m Let_def split: prod.splits)
    have params: "map h_param ?hs = filter (\<lambda>p. grad st p \<noteq> None) (non_ac_params self)"
      by (rule issued_params)
    show ?thesis
    proof (cases "grad st p")
      case None
      have "h_param ` set ?hs = set (filter (\<lambda>p. grad st p \<noteq> None) (non_ac_params self))"
        unfolding params[symmetric] by simp
      with None have "p \<notin> h_param ` set ?hs"
        by simp
      then have "grad st' p = grad ?st3 p"
        unfolding st' by (rule fold_wait_other)
      also have "\<dots> = grad ?st1 p" by (rule clips)
      also have "\<dots> = None" using None by simp
      finally show ?thesis using None Some by simp
    next
      case g: (Some g)
      have mem: "\<lparr>h_param = p, h_reduced = ?f p g\<rparr> \<in> set ?hs"
        using g p by (rule issued_member)
      have dist: "distinct (map h_param ?hs)"
        unfolding params using d by simp
      from fold_wait_reduced[OF dist mem, of ?st3]
      have "grad st' p = Some (?f p g)"
        unfolding st' by simp
      then show ?thesis using g Some by simp
    qed
  qed
qed

lemma fold_mul_grad_agree:
  "\<forall>q\<in>A. grad s q = grad t q \<Longrightarrow>
   \<forall>q\<in>A. grad (fold (mul_grad c) ps s) q = grad (fold (mul_grad c) ps t) q"
proof (induction ps arbitrary: s t)
  case Nil
  then show ?case by simp
next
  case (Cons p ps)
  have "\<forall>q\<in>A. grad (mul_grad c p s) q = grad (mul_grad c p t) q"
  proof
    fix q assume q: "q \<in> A"
    show "grad (mul_grad c p s) q = grad (mul_grad c p t) q"
    proof (cases "q = p")
      case True
      with q Cons.prems have "grad s p = grad t p" by blast
      with True show ?thesis by (simp add: mul_grad_def split: option.split)
    next
      case False
      with q Cons.prems show ?thesis by (simp add: mul_grad_def split: option.split)
    qed
  qed
  then show ?case using Cons.IH by simp
qed

text \<open>
  \<^verbatim>\<open>clip_grad_norm_\<close> reads the gradients of its parameters only: on two states that
  agree on a set of parameters that holds them, it returns the same norm and leaves states
  that agree on the set.
\<close>

lemma clip_grad_norm_agree:
  assumes agree: "\<forall>q\<in>A. grad s q = grad t q" and sub: "set ps \<subseteq> A"
  shows "snd (clip_grad_norm ps m s) = snd (clip_grad_norm ps m t)"
    and "\<forall>q\<in>A. grad (fst (clip_grad_norm ps m s)) q = grad (fst (clip_grad_norm ps m t)) q"
proof -
  have grads: "map (\<lambda>p. case grad s p of None \<Rightarrow> [] | Some g \<Rightarrow> [g]) ps =
      map (\<lambda>p. case grad t p of None \<Rightarrow> [] | Some g \<Rightarrow> [g]) ps"
    using agree sub by (intro map_cong) auto
  show "snd (clip_grad_norm ps m s) = snd (clip_grad_norm ps m t)"
    by (simp add: clip_grad_norm_def grads Let_def)
  show "\<forall>q\<in>A. grad (fst (clip_grad_norm ps m s)) q = grad (fst (clip_grad_norm ps m t)) q"
    using agree fold_mul_grad_agree[OF agree]
    by (simp add: clip_grad_norm_def grads Let_def)
qed

lemma clip_groups_agree:
  assumes "\<forall>q\<in>A. grad s q = grad t q" and "\<forall>v\<in>set vs. set (in_updater v) \<subseteq> A"
  shows "\<forall>q\<in>A. grad (fold (\<lambda>v s. fst (clip_grad_norm (in_updater v) m s)) vs s) q =
                grad (fold (\<lambda>v s. fst (clip_grad_norm (in_updater v) m s)) vs t) q"
  using assms
proof (induction vs arbitrary: s t)
  case Nil
  then show ?case by simp
next
  case (Cons v vs)
  from Cons.prems have sub: "set (in_updater v) \<subseteq> A" and rest: "\<forall>v\<in>set vs. set (in_updater v) \<subseteq> A"
    by simp_all
  from clip_grad_norm_agree(2)[OF Cons.prems(1) sub]
  have "\<forall>q\<in>A. grad (fst (clip_grad_norm (in_updater v) m s)) q =
               grad (fst (clip_grad_norm (in_updater v) m t)) q" .
  from Cons.IH[OF this rest] show ?case by simp
qed

text \<open>
  The gradients of the policy module come out of \<^verbatim>\<open>before_step\<close> the same with a
  process group as without one, and so does the norm it returns: they are clipped, and
  neither divided nor reduced.
\<close>

lemma before_step_actor_critic:
  assumes d: "distinct (non_ac_params self)"
    and np: "\<forall>q\<in>set (non_ac_params self). \<not> prefix ''actor_critic.'' q"
    and ret: "before_step (Some pg) self st = Inr (st', n)"
  shows "\<exists>st0. before_step None self st = Inr (st0, n) \<and>
           (\<forall>q. prefix ''actor_critic.'' q \<longrightarrow> grad st' q = grad st0 q)"
proof -
  let ?A = "{q. prefix ''actor_critic.'' q}"
  from ret obtain m where m: "max_grad_norm self = Some m"
    by (cases "max_grad_norm self") (auto simp: before_step_def split: prod.splits)
  let ?hs = "concat (map (\<lambda>p. case grad st p of
               None \<Rightarrow> []
             | Some g \<Rightarrow> [\<lparr>h_param = p, h_reduced = foldl tensor_add
                   (map (\<lambda>x. x / real (world_size pg)) g) (peers pg p)\<rparr>])
             (non_ac_params self))"
  let ?st1 = "st\<lparr>grad := (\<lambda>q. if q \<in> set (non_ac_params self)
                      then map_option (map (\<lambda>x. x / real (world_size pg))) (grad st q)
                      else grad st q),
       in_flight := in_flight st @ ?hs\<rparr>"
  have sync: "fold (sync_grad pg) (non_ac_params self) (st, []) = (?st1, ?hs)"
    using fold_sync_grad[OF d, of pg st "[]"] by simp
  let ?pol = "in_updater (policy_parameters (actor_critic self))"
  let ?aux = "map snd (aux_loss_parameters (actor_critic self))"
  let ?clip = "\<lambda>s. fold (\<lambda>v s. fst (clip_grad_norm (in_updater v) m s)) ?aux
                      (fst (clip_grad_norm ?pol m s))"
  have agree1: "\<forall>q\<in>?A. grad ?st1 q = grad st q"
    using np by auto
  have pol: "set ?pol \<subseteq> ?A" and aux: "\<forall>v\<in>set ?aux. set (in_updater v) \<subseteq> ?A"
    using in_updater_prefix by blast+
  have norm: "snd (clip_grad_norm ?pol m ?st1) = snd (clip_grad_norm ?pol m st)"
    using agree1 pol by (rule clip_grad_norm_agree(1))
  have agree3: "\<forall>q\<in>?A. grad (?clip ?st1) q = grad (?clip st) q"
    using clip_grad_norm_agree(2)[OF agree1 pol] aux by (rule clip_groups_agree)
  from ret have st': "st' = fold wait ?hs (?clip ?st1)"
    and n: "n = snd (clip_grad_norm ?pol m ?st1)"
    by (simp_all add: before_step_def sync m Let_def split: prod.splits)
  have local: "before_step None self st = Inr (?clip st, n)"
    by (simp add: before_step_def m Let_def n norm split: prod.splits)
  have "grad st' q = grad (?clip st) q" if q: "prefix ''actor_critic.'' q" for q
  proof -
    have "map h_param ?hs = filter (\<lambda>p. grad st p \<noteq> None) (non_ac_params self)"
      by (rule issued_params)
    then have "h_param ` set ?hs = set (filter (\<lambda>p. grad st p \<noteq> None) (non_ac_params self))"
      by (metis set_map)
    then have "h_param ` set ?hs \<subseteq> set (non_ac_params self)"
      by auto
    with np q have "q \<notin> h_param ` set ?hs" by blast
    then have "grad st' q = grad (?clip ?st1) q"
      unfolding st' by (rule fold_wait_other)
    with agree3 q show ?thesis by simp
  qed
  with local show ?thesis by blast
qed

lemma filter_actor_critic:
  "filter (\<lambda>p. \<not> prefix ''actor_critic.'' (p_name p))
     (map (\<lambda>p. p\<lparr>p_name := ''actor_critic.'' @ p_name p\<rparr>) ps) = []"
  by (induction ps) simp_all

text \<open>
  The constructor leaves in \<^verbatim>\<open>non_ac_params\<close> distinct parameters, none of the
  policy module: the parameter of the adaptive coefficient, or nothing.
\<close>

lemma PPO_init_non_ac_params:
  assumes "PPO_init step fresh ac args = Inr self0"
  shows "distinct (non_ac_params self0)"
    and "\<forall>q\<in>set (non_ac_params self0). \<not> prefix ''actor_critic.'' q"
proof -
  from assms obtain ec where
    "non_ac_params self0 =
       map p_name (filter (\<lambda>p. \<not> prefix ''actor_critic.'' (p_name p)) (named_parameters ac ec))"
    by (auto simp: PPO_init_def Let_def split: if_splits)
  then have n: "non_ac_params self0 =
      (case ec of Fixed _ \<Rightarrow> [] | Lagrange _ \<Rightarrow> [''entropy_coef.alpha''])"
    by (simp add: named_parameters_def filter_actor_critic coefficient_parameters_def
        split: entropy_coef.split)
  show "distinct (non_ac_params self0)"
    unfolding n by (simp split: entropy_coef.split)
  show "\<forall>q\<in>set (non_ac_params self0). \<not> prefix ''actor_critic.'' q"
    unfolding n by (simp split: entropy_coef.split)
qed

lemma PPO_init_example:
  "PPO_init (\<lambda>g n. Suc n) 0 example_policy example_args = Inr example_updater"
  by (simp add: PPO_init_def example_policy_def example_args_def
      example_updater_def example_task_def named_parameters_def create_optimizer_def
      coefficient_parameters_def LagrangeInequalityCoefficient_def Let_def)

text \<open>
  Claim C10. Take an updater whose \<^verbatim>\<open>non_ac_params\<close> are those the constructor
  set, and one of these parameters. It is in none of the groups \<^verbatim>\<open>before_step\<close>
  clips, whatever \<^verbatim>\<open>max_grad_norm\<close> is. Without a process group
  \<^verbatim>\<open>before_step\<close> returns its gradient as it was; with one, the gradient is the sum
  the all-reduce delivers for the gradient divided by the world size, and an absent
  gradient stays absent.
\<close>

theorem non_ac_gradients_not_clipped:
  assumes init: "PPO_init step fresh ac args = Inr self0"
    and same: "non_ac_params self = non_ac_params self0"
    and p: "p \<in> set (non_ac_params self)"
  shows "p \<notin> set (in_updater (policy_parameters (actor_critic self))) \<and>
         (\<forall>v\<in>set (map snd (aux_loss_parameters (actor_critic self))). p \<notin> set (in_updater v)) \<and>
         (before_step None self st = Inr (st', n) \<longrightarrow> grad st' p = grad st p) \<and>
         (before_step (Some pg) self st = Inr (st'', n') \<longrightarrow>
            grad st'' p =
              map_option (\<lambda>g. foldl tensor_add (map (\<lambda>x. x / real (world_size pg)) g) (peers pg p))
                (grad st p))"
proof -
  note h = PPO_init_non_ac_params[OF init, folded same]
  from h(2) p have "\<not> prefix ''actor_critic.'' p" by blast
  then have a: "p \<notin> set (in_updater (policy_parameters (actor_critic self)))"
    and b: "\<forall>v\<in>set (map snd (aux_loss_parameters (actor_critic self))). p \<notin> set (in_updater v)"
    using in_updater_prefix by blast+
  have c: "grad st' p = grad st p" if "before_step None self st = Inr (st', n)"
    using before_step_non_ac[OF h p that] by simp
  have d: "grad st'' p =
      map_option (\<lambda>g. foldl tensor_add (map (\<lambda>x. x / real (world_size pg)) g) (peers pg p))
        (grad st p)" if "before_step (Some pg) self st = Inr (st'', n')"
    using before_step_non_ac[OF h p that] by simp
  from a b c d show ?thesis by blast
qed

lemma example_grads_alpha: "example_grads ''entropy_coef.alpha'' = Some [2]"
  by (simp add: example_grads_def)

theorem non_ac_gradients_not_clipped_witness:
  "''entropy_coef.alpha'' \<in> set (non_ac_params example_updater) \<and>
   (\<exists>st' n. before_step None example_updater (example_state\<lparr>grad := example_grads\<rparr>)
              = Inr (st', n) \<and>
      grad st' ''entropy_coef.alpha'' = Some [2]) \<and>
   (\<exists>st' n. before_step (Some example_group) example_updater
              (example_state\<lparr>grad := example_grads\<rparr>) = Inr (st', n) \<and>
      grad st' ''entropy_coef.alpha'' = Some [5])"
proof -
  let ?st = "example_state\<lparr>grad := example_grads\<rparr>"
  have p: "''entropy_coef.alpha'' \<in> set (non_ac_params example_updater)"
    by (simp add: example_updater_def)
  have m: "max_grad_norm example_updater = Some (1 / 5)"
    by (simp add: example_updater_def)
  obtain s1 n1 where r1: "before_step None example_updater ?st = Inr (s1, n1)"
    using before_step_returns[OF m] by blast
  obtain s2 n2 where r2: "before_step (Some example_group) example_updater ?st = Inr (s2, n2)"
    using before_step_returns[OF m] by blast
  note t = non_ac_gradients_not_clipped[OF PPO_init_example refl p,
      of ?st s1 n1 example_group s2 n2]
  from t r1 have a: "grad s1 ''entropy_coef.alpha'' = Some [2]"
    by (simp add: example_grads_alpha)
  from t r2 have "grad s2 ''entropy_coef.alpha'' =
      map_option (\<lambda>g. foldl tensor_add (map (\<lambda>x. x / real (world_size example_group)) g)
        (peers example_group ''entropy_coef.alpha'')) (grad ?st ''entropy_coef.alpha'')"
    by blast
  then have b: "grad s2 ''entropy_coef.alpha'' = Some [5]"
    by (simp add: example_grads_alpha example_group_def tensor_add_def)
  from p r1 a r2 b show ?thesis by blast
qed

lemma tensor_add_halves:
  "tensor_add (map (\<lambda>x. x / 2) a) (map (\<lambda>x. x / 2) b) = map2 (\<lambda>x y. (x + y) / 2) a b"
  by (auto simp: tensor_add_def zip_map_map add_divide_distrib)

lemma map2_average_commute:
  "map2 (\<lambda>x y. (x + y) / 2) b a = map2 (\<lambda>x y. (x + y) / (2 :: real)) a b"
  by (subst zip_commute) (simp add: add.commute case_prod_unfold)

lemma set_grads_to_none_in_flight:
  "set_grads_to_none self st = Inr st' \<Longrightarrow> in_flight st' = in_flight st"
proof -
  have "in_flight (fold (\<lambda>p s. s\<lparr>grad := (grad s)(p := None)\<rparr>) ps st) = in_flight st" for ps
    by (induction ps arbitrary: st) simp_all
  then show "set_grads_to_none self st = Inr st' \<Longrightarrow> in_flight st' = in_flight st"
    by (auto simp: set_grads_to_none_def split: option.splits)
qed

text \<open>
  The optimizer step of a minibatch reads the gradients \<^verbatim>\<open>before_step\<close> returned,
  and none of their all-reduces is still in flight.
\<close>

lemma update_from_batch_step:
  assumes ret: "update_from_batch mb epoch rollouts (self, st, lm) = Inr (self', st', lm')"
    and idle: "in_flight st = []"
  shows "in_flight st' = [] \<and>
         (\<exists>opt. optimizer self = Some opt \<and>
            optimizer self' = Some (opt\<lparr>state := step_fn opt (grad st') (state opt)\<rparr>))"
proof -
  from ret obtain st1 loss n self1 where
    s1: "set_grads_to_none self st = Inr st1"
    and s3: "before_step (mb_group mb) self (st1\<lparr>grad := mb_backward mb\<rparr>) = Inr (st', n)"
    and s4: "optimizer_step (mb_stepped_alpha mb) st' self = Inr self1"
    and self': "self' = after_step self1"
    unfolding update_from_batch_def
    by (auto simp: Let_def dest!: and_then_Inr)
  have "in_flight (st1\<lparr>grad := mb_backward mb\<rparr>) = []"
    using set_grads_to_none_in_flight[OF s1] idle by simp
  with s3 have a: "in_flight st' = []"
    by (rule before_step_in_flight)
  from s4 obtain opt where "optimizer self = Some opt"
    and "optimizer self1 = Some (opt\<lparr>state := step_fn opt (grad st') (state opt)\<rparr>)"
    by (auto simp: optimizer_step_def split: option.splits)
  moreover have "optimizer self' = optimizer self1"
    unfolding self' by (simp add: after_step_def split: entropy_coef.split)
  ultimately show ?thesis using a by simp
qed

text \<open>
  The parameters that are synchronized are those of \<^verbatim>\<open>non_ac_params\<close>. Take an
  updater whose \<^verbatim>\<open>non_ac_params\<close> are those the constructor set and which has a
  clipping threshold. With a process group \<^verbatim>\<open>before_step\<close> returns, and the
  gradient of each of these parameters that was present is the sum the all-reduce
  delivers for the gradient divided by the world size; the worker leaves with no
  all-reduce in flight when it entered with none; and the gradients of the policy module
  and the returned norm are those of \<^verbatim>\<open>before_step\<close> without a group. In a group of
  two workers that hold \<open>g1\<close> and \<open>g2\<close> for such a parameter, both end with
  \<open>(g1 + g2) / 2\<close>. In a minibatch step the optimizer reads the gradients
  \<^verbatim>\<open>before_step\<close> returned, with nothing in flight.
\<close>

theorem distributed_gradient_averaging:
  assumes init: "PPO_init step fresh ac args = Inr self0"
    and same: "non_ac_params self = non_ac_params self0"
    and norm: "max_grad_norm self = Some m"
  shows "(\<exists>st' n. before_step (Some pg) self st = Inr (st', n) \<and>
            (\<forall>p\<in>set (non_ac_params self). \<forall>g. grad st p = Some g \<longrightarrow>
               grad st' p =
                 Some (foldl tensor_add (map (\<lambda>x. x / real (world_size pg)) g) (peers pg p))) \<and>
            (in_flight st = [] \<longrightarrow> in_flight st' = []) \<and>
            (\<exists>st0. before_step None self st = Inr (st0, n) \<and>
               (\<forall>q. prefix ''actor_critic.'' q \<longrightarrow> grad st' q = grad st0 q))) \<and>
         (p \<in> set (non_ac_params self) \<and> grad stA p = Some g1 \<and> grad stB p = Some g2 \<longrightarrow>
            (\<exists>stA' nA stB' nB.
               group_before_step self [stA, stB] = [Inr (stA', nA), Inr (stB', nB)] \<and>
               grad stA' p = Some (map2 (\<lambda>a b. (a + b) / 2) g1 g2) \<and>
               grad stB' p = Some (map2 (\<lambda>a b. (a + b) / 2) g1 g2))) \<and>
         (update_from_batch mb epoch rollouts (self, st1, lm) = Inr (self', st1', lm') \<and>
          in_flight st1 = [] \<longrightarrow>
            in_flight st1' = [] \<and>
            (\<exists>opt. optimizer self = Some opt \<and>
               optimizer self' = Some (opt\<lparr>state := step_fn opt (grad st1') (state opt)\<rparr>)))"
proof (intro conjI impI)
  note h = PPO_init_non_ac_params[OF init, folded same]
  show "\<exists>st' n. before_step (Some pg) self st = Inr (st', n) \<and>
            (\<forall>p\<in>set (non_ac_params self). \<forall>g. grad st p = Some g \<longrightarrow>
               grad st' p =
                 Some (foldl tensor_add (map (\<lambda>x. x / real (world_size pg)) g) (peers pg p))) \<and>
            (in_flight st = [] \<longrightarrow> in_flight st' = []) \<and>
            (\<exists>st0. before_step None self st = Inr (st0, n) \<and>
               (\<forall>q. prefix ''actor_critic.'' q \<longrightarrow> grad st' q = grad st0 q))"
  proof -
    obtain st' n where r: "before_step (Some pg) self st = Inr (st', n)"
      using before_step_returns[OF norm] by blast
    have a: "\<forall>p\<in>set (non_ac_params self). \<forall>g. grad st p = Some g \<longrightarrow>
               grad st' p =
                 Some (foldl tensor_add (map (\<lambda>x. x / real (world_size pg)) g) (peers pg p))"
      using before_step_non_ac[OF h _ r] by simp
    have b: "in_flight st = [] \<longrightarrow> in_flight st' = []"
      using before_step_in_flight[OF r] by blast
    from r a b before_step_actor_critic[OF h r] show ?thesis by blast
  qed
  show "\<exists>stA' nA stB' nB.
          group_before_step self [stA, stB] = [Inr (stA', nA), Inr (stB', nB)] \<and>
          grad stA' p = Some (map2 (\<lambda>a b. (a + b) / 2) g1 g2) \<and>
          grad stB' p = Some (map2 (\<lambda>a b. (a + b) / 2) g1 g2)"
    if two: "p \<in> set (non_ac_params self) \<and> grad stA p = Some g1 \<and> grad stB p = Some g2"
  proof -
    let ?A = "group_view [stA, stB] 0" and ?B = "group_view [stA, stB] (Suc 0)"
    from two have p: "p \<in> set (non_ac_params self)"
      and g1: "grad stA p = Some g1" and g2: "grad stB p = Some g2" by simp_all
    obtain stA' nA where rA: "before_step (Some ?A) self stA = Inr (stA', nA)"
      using before_step_returns[OF norm] by blast
    obtain stB' nB where rB: "before_step (Some ?B) self stB = Inr (stB', nB)"
      using before_step_returns[OF norm] by blast
    have run: "group_before_step self [stA, stB] = [Inr (stA', nA), Inr (stB', nB)]"
      by (simp add: group_before_step_def upt_rec rA rB)
    have vA: "world_size ?A = 2" "peers ?A p = [map (\<lambda>x. x / 2) g2]"
      and vB: "world_size ?B = 2" "peers ?B p = [map (\<lambda>x. x / 2) g1]"
      by (simp_all add: group_view_def handed_over_def upt_rec g1 g2)
    have "grad stA' p = Some (foldl tensor_add (map (\<lambda>x. x / real (world_size ?A)) g1) (peers ?A p))"
      using before_step_non_ac[OF h p rA] g1 by simp
    then have a: "grad stA' p = Some (map2 (\<lambda>a b. (a + b) / 2) g1 g2)"
      unfolding vA by (simp add: tensor_add_halves)
    have "grad stB' p = Some (foldl tensor_add (map (\<lambda>x. x / real (world_size ?B)) g2) (peers ?B p))"
      using before_step_non_ac[OF h p rB] g2 by simp
    then have b: "grad stB' p = Some (map2 (\<lambda>a b. (a + b) / 2) g1 g2)"
      unfolding vB by (simp add: tensor_add_halves map2_average_commute)
    from run a b show ?thesis by blast
  qed
  show "in_flight st1' = []"
    if "update_from_batch mb epoch rollouts (self, st1, lm) = Inr (self', st1', lm') \<and>
        in_flight st1 = []"
    using update_from_batch_step that by blast
  show "\<exists>opt. optimizer self = Some opt \<and>
          optimizer self' = Some (opt\<lparr>state := step_fn opt (grad st1') (state opt)\<rparr>)"
    if "update_from_batch mb epoch rollouts (self, st1, lm) = Inr (self', st1', lm') \<and>
        in_flight st1 = []"
    using update_from_batch_step that by blast
qed

theorem distributed_gradient_averaging_witness:
  "max_grad_norm example_updater = Some (1 / 5) \<and>
   (\<exists>st' n. before_step (Some example_group) example_updater
              (example_state\<lparr>grad := example_grads\<rparr>) = Inr (st', n) \<and>
      grad st' ''entropy_coef.alpha'' = Some [5] \<and> in_flight st' = []) \<and>
   (\<exists>stA' nA stB' nB.
      group_before_step example_updater
        [example_state\<lparr>grad := [''entropy_coef.alpha'' \<mapsto> [2]]\<rparr>,
         example_state\<lparr>grad := [''entropy_coef.alpha'' \<mapsto> [6]]\<rparr>]
        = [Inr (stA', nA), Inr (stB', nB)] \<and>
      grad stA' ''entropy_coef.alpha'' = Some [4] \<and>
      grad stB' ''entropy_coef.alpha'' = Some [4]) \<and>
   (\<exists>self' st' lm'.
      update_from_batch example_minibatch 0 example_rollouts
        (example_updater, example_state, \<lambda>k. []) = Inr (self', st', lm') \<and>
      in_flight st' = [] \<and> optimizer self' \<noteq> None)"
proof -
  let ?p = "''entropy_coef.alpha''"
  let ?st = "example_state\<lparr>grad := example_grads\<rparr>"
  let ?A = "example_state\<lparr>grad := [?p \<mapsto> [2]]\<rparr>"
  let ?B = "example_state\<lparr>grad := [?p \<mapsto> [6]]\<rparr>"
  have m: "max_grad_norm example_updater = Some (1 / 5)"
    by (simp add: example_updater_def)
  have p: "?p \<in> set (non_ac_params example_updater)"
    by (simp add: example_updater_def)
  have idle: "in_flight ?st = []" "in_flight example_state = []"
    by (simp_all add: example_state_def)
  from example_update_epochs obtain self1 st1 lm1 where
    s: "update_from_batch example_minibatch 0 example_rollouts
          (example_updater, example_state, \<lambda>k. []) = Inr (self1, st1, lm1)"
    by blast
  note t = distributed_gradient_averaging[OF PPO_init_example refl m,
      of example_group ?st ?p ?A "[2]" ?B "[6]" example_minibatch 0 example_rollouts
         example_state "\<lambda>k. []" self1 st1 lm1]
  from t obtain st' n where
    r: "before_step (Some example_group) example_updater ?st = Inr (st', n)"
    and g: "\<forall>p\<in>set (non_ac_params example_updater). \<forall>g. grad ?st p = Some g \<longrightarrow>
               grad st' p = Some (foldl tensor_add
                 (map (\<lambda>x. x / real (world_size example_group)) g) (peers example_group p))"
    and f: "in_flight ?st = [] \<longrightarrow> in_flight st' = []"
    by blast
  from g p have "grad st' ?p = Some (foldl tensor_add
      (map (\<lambda>x. x / real (world_size example_group)) [2]) (peers example_group ?p))"
    by (simp add: example_grads_alpha)
  then have a: "grad st' ?p = Some [5]"
    by (simp add: example_group_def tensor_add_def)
  from f idle have b: "in_flight st' = []" by simp
  have "?p \<in> set (non_ac_params example_updater) \<and> grad ?A ?p = Some [2] \<and>
      grad ?B ?p = Some [6]"
    using p by simp
  with t obtain stA' nA stB' nB where
    "group_before_step example_updater [?A, ?B] = [Inr (stA', nA), Inr (stB', nB)]"
    "grad stA' ?p = Some (map2 (\<lambda>a b. (a + b) / 2) [2] [6])"
    "grad stB' ?p = Some (map2 (\<lambda>a b. (a + b) / 2) [2] [6])"
    by blast
  then have c: "\<exists>stA' nA stB' nB.
      group_before_step example_updater [?A, ?B] = [Inr (stA', nA), Inr (stB', nB)] \<and>
      grad stA' ?p = Some [4] \<and> grad stB' ?p = Some [4]"
    by auto
  from t s idle have "in_flight st1 = [] \<and>
      (\<exists>opt. optimizer example_updater = Some opt \<and>
         optimizer self1 = Some (opt\<lparr>state := step_fn opt (grad st1) (state opt)\<rparr>))"
    by blast
  then have d: "in_flight st1 = [] \<and> optimizer self1 \<noteq> None"
    by auto
  from m r a b c s d show ?thesis by blast
qed

lemma fold_sync_grad_other:
  "fold (sync_grad pg) ps (st, hs) = (st', hs') \<Longrightarrow> q \<notin> set ps \<Longrightarrow>
   q \<notin> h_param ` set hs \<Longrightarrow> grad st' q = grad st q \<and> q \<notin> h_param ` set hs'"
proof (induction ps arbitrary: st hs)
  case Nil
  then show ?case by simp
next
  case (Cons p ps)
  obtain s1 h1 where s1: "sync_grad pg p (st, hs) = (s1, h1)"
    by (cases "sync_grad pg p (st, hs)")
  from Cons.prems(2) have qp: "q \<noteq> p" and q: "q \<notin> set ps" by auto
  from s1 qp Cons.prems(3) have a: "grad s1 q = grad st q" and b: "q \<notin> h_param ` set h1"
    by (auto simp: sync_grad_def all_reduce_def Let_def split: option.splits)
  from Cons.prems(1) s1 have "fold (sync_grad pg) ps (s1, h1) = (st', hs')"
    by simp
  from Cons.IH[OF this q b] a show ?case by simp
qed

text \<open>
  \<^verbatim>\<open>before_step\<close> returns as it was the gradient of every parameter that is neither
  in \<^verbatim>\<open>non_ac_params\<close> nor in the policy module, with a process group as without.
\<close>

lemma before_step_unregistered:
  assumes ret: "before_step pgroup self st = Inr (st', n)"
    and q: "q \<notin> set (non_ac_params self)"
    and nopre: "\<not> prefix ''actor_critic.'' q"
  shows "grad st' q = grad st q"
proof -
  obtain st1 hs where
    s1: "(case pgroup of None \<Rightarrow> (st, [])
          | Some pg \<Rightarrow> fold (sync_grad pg) (non_ac_params self) (st, [])) = (st1, hs)"
    by (cases "case pgroup of None \<Rightarrow> (st, [])
          | Some pg \<Rightarrow> fold (sync_grad pg) (non_ac_params self) (st, [])")
  have f1: "grad st1 q = grad st q \<and> q \<notin> h_param ` set hs"
  proof (cases pgroup)
    case None
    with s1 show ?thesis by auto
  next
    case (Some pg)
    with s1 have "fold (sync_grad pg) (non_ac_params self) (st, []) = (st1, hs)" by simp
    then show ?thesis using q by (rule fold_sync_grad_other) simp
  qed
  from ret obtain m where m: "max_grad_norm self = Some m"
    by (cases "max_grad_norm self") (auto simp: before_step_def s1)
  from ret have st': "st' = fold wait hs
      (fold (\<lambda>v s. fst (clip_grad_norm (in_updater v) m s))
         (map snd (aux_loss_parameters (actor_critic self)))
         (fst (clip_grad_norm (in_updater (policy_parameters (actor_critic self))) m st1)))"
    by (simp add: before_step_def s1 m Let_def split: prod.splits)
  from nopre have pol: "q \<notin> set (in_updater (policy_parameters (actor_critic self)))"
    and aux: "\<forall>v\<in>set (map snd (aux_loss_parameters (actor_critic self))). q \<notin> set (in_updater v)"
    using in_updater_prefix by blast+
  show ?thesis
    unfolding st' using f1
    by (simp add: fold_wait_other clip_groups_other[OF aux] clip_grad_norm_other[OF pol])
qed

text \<open>
  Claim C4 on the code. The example updater has one auxiliary task. Its parameter
  \<^verbatim>\<open>task.weight\<close> is no parameter of the policy module and the optimizer steps it,
  but the task sits in the plain list \<^verbatim>\<open>_aux_tasks\<close>, so the parameter is not among
  \<^verbatim>\<open>named_parameters()\<close> and not in \<^verbatim>\<open>non_ac_params\<close>. In a group of two
  workers that hold the gradients \<open>[2]\<close> and \<open>[6]\<close> for it, \<^verbatim>\<open>before_step\<close>
  returns \<open>[2]\<close> on the one and \<open>[6]\<close> on the other: the gradient is neither
  divided by the world size nor reduced, where the claim has \<open>[4]\<close> on both.
\<close>

theorem aux_task_gradients_not_averaged:
  "task_parameters example_task = [\<lparr>p_name = ''task.weight'', requires_grad = True\<rparr>] \<and>
   aux_tasks example_updater = [example_task] \<and>
   map_option param_groups (optimizer example_updater) =
     Some [''actor_critic.net.weight'', ''actor_critic.critic.weight'',
           ''actor_critic.cpc.weight'', ''entropy_coef.alpha'', ''task.weight''] \<and>
   \<not> prefix ''actor_critic.'' ''task.weight'' \<and>
   non_ac_params example_updater = [''entropy_coef.alpha''] \<and>
   map (\<lambda>r. case r of Inl e \<Rightarrow> None | Inr (st, n) \<Rightarrow> grad st ''task.weight'')
     (group_before_step example_updater
        [example_state\<lparr>grad := [''task.weight'' \<mapsto> [2]]\<rparr>,
         example_state\<lparr>grad := [''task.weight'' \<mapsto> [6]]\<rparr>])
     = [Some [2], Some [6]]"
proof -
  let ?A = "example_state\<lparr>grad := [''task.weight'' \<mapsto> [2]]\<rparr>"
  let ?B = "example_state\<lparr>grad := [''task.weight'' \<mapsto> [6]]\<rparr>"
  let ?gA = "group_view [?A, ?B] 0" and ?gB = "group_view [?A, ?B] (Suc 0)"
  have m: "max_grad_norm example_updater = Some (1 / 5)"
    by (simp add: example_updater_def)
  have fixture: "task_parameters example_task = [\<lparr>p_name = ''task.weight'', requires_grad = True\<rparr>]"
    "aux_tasks example_updater = [example_task]"
    "map_option param_groups (optimizer example_updater) =
       Some [''actor_critic.net.weight'', ''actor_critic.critic.weight'',
             ''actor_critic.cpc.weight'', ''entropy_coef.alpha'', ''task.weight'']"
    "non_ac_params example_updater = [''entropy_coef.alpha'']"
    by (simp_all add: example_task_def example_updater_def)
  have q: "''task.weight'' \<notin> set (non_ac_params example_updater)"
    and nopre: "\<not> prefix ''actor_critic.'' ''task.weight''"
    by (simp_all add: example_updater_def)
  obtain stA nA where rA: "before_step (Some ?gA) example_updater ?A = Inr (stA, nA)"
    using before_step_returns[OF m] by blast
  obtain stB nB where rB: "before_step (Some ?gB) example_updater ?B = Inr (stB, nB)"
    using before_step_returns[OF m] by blast
  have run: "group_before_step example_updater [?A, ?B] = [Inr (stA, nA), Inr (stB, nB)]"
    by (simp add: group_before_step_def upt_rec rA rB)
  have a: "grad stA ''task.weight'' = Some [2]"
    using before_step_unregistered[OF rA q nopre] by simp
  have b: "grad stB ''task.weight'' = Some [6]"
    using before_step_unregistered[OF rB q nopre] by simp
  have "map (\<lambda>r. case r of Inl e \<Rightarrow> None | Inr (st, n) \<Rightarrow> grad st ''task.weight'')
     (group_before_step example_updater [?A, ?B]) = [Some [2], Some [6]]"
    unfolding run by (simp add: a b)
  with fixture nopre show ?thesis by blast
qed

end
